theory Spec2Isabelle
  imports Main
begin

section \<open>JavaScript values and string helpers used by \<open>src/api/index.ts\<close>\<close>

text \<open>
  Strings are \<open>char list\<close>; the strings of this module (cookie lines, query keys, HTTP
  methods, host names) are ASCII. Numbers are the integers the module handles (ports, API
  versions, query counters).
\<close>

datatype jsval = JUndefined | JNull | JBool bool | JNum int | JStr string

text \<open>JavaScript truthiness (\<open>if (value)\<close>).\<close>

fun truthy :: "jsval \<Rightarrow> bool" where
  "truthy JUndefined = False"
| "truthy JNull = False"
| "truthy (JBool b) = b"
| "truthy (JNum n) = (n \<noteq> 0)"
| "truthy (JStr s) = (s \<noteq> [])"

definition digit_char :: "nat \<Rightarrow> char" where
  "digit_char d = ''0123456789'' ! d"

function string_of_nat :: "nat \<Rightarrow> string" where
  "string_of_nat n = (if n < 10 then [digit_char n] else string_of_nat (n div 10) @ [digit_char (n mod 10)])"
  by pat_completeness auto
termination
  by (relation "measure id") auto

declare string_of_nat.simps [simp del]

definition string_of_int :: "int \<Rightarrow> string" where
  "string_of_int i = (if i < 0 then CHR ''-'' # string_of_nat (nat (- i)) else string_of_nat (nat i))"

text \<open>The string a template literal \<open>`${value}`\<close> produces.\<close>

fun toString :: "jsval \<Rightarrow> string" where
  "toString JUndefined = ''undefined''"
| "toString JNull = ''null''"
| "toString (JBool b) = (if b then ''true'' else ''false'')"
| "toString (JNum n) = string_of_int n"
| "toString (JStr s) = s"

text \<open>\<open>Array.prototype.join\<close> on an array of strings.\<close>

fun join :: "string \<Rightarrow> string list \<Rightarrow> string" where
  "join sep [] = []"
| "join sep [x] = x"
| "join sep (x # y # ys) = x @ sep @ join sep (y # ys)"

text \<open>\<open>Array.prototype.findIndex\<close>: the first index whose element satisfies the
  predicate; \<open>None\<close> stands for the result \<open>-1\<close>.\<close>

fun findIndex :: "('a \<Rightarrow> bool) \<Rightarrow> 'a list \<Rightarrow> nat option" where
  "findIndex p [] = None"
| "findIndex p (x # xs) =
     (if p x then Some 0 else (case findIndex p xs of None \<Rightarrow> None | Some i \<Rightarrow> Some (Suc i)))"

text \<open>\<open>String.prototype.startsWith\<close>.\<close>

fun startsWith :: "string \<Rightarrow> string \<Rightarrow> bool" where
  "startsWith s [] = True"
| "startsWith [] (c # cs) = False"
| "startsWith (x # xs) (c # cs) = (x = c \<and> startsWith xs cs)"

section \<open>Session cookies: \<open>updateCookies\<close>\<close>

text \<open>\<open>const [cookieName] = cookie.split("=")\<close>: the text before the first \<open>=\<close>
  (the whole string when there is none).\<close>

definition cookieName :: "string \<Rightarrow> string" where
  "cookieName cookie = takeWhile (\<lambda>c. c \<noteq> CHR ''='') cookie"

text \<open>The body of the \<open>forEach\<close> callback of \<open>updateCookies\<close>, on the cookie array.\<close>

definition updateCookie :: "string \<Rightarrow> string list \<Rightarrow> string list" where
  "updateCookie cookie cookies =
     (case findIndex (\<lambda>el. startsWith el (cookieName cookie)) cookies of
        Some index \<Rightarrow> cookies[index := cookie]
      | None \<Rightarrow> cookies @ [cookie])"

text \<open>\<open>newCookies.forEach(...)\<close> on the stored array \<open>cookies\<close>.\<close>

definition mergeCookies :: "string list \<Rightarrow> string list \<Rightarrow> string list" where
  "mergeCookies cookies newCookies = fold updateCookie newCookies cookies"

section \<open>Query parameters: \<open>buildParams\<close>\<close>

text \<open>
  \<open>params\<close> is an object; \<open>Object.keys(params)\<close> lists its keys in iteration order, so
  the object is the list of its entries in that order. \<open>None\<close> is a missing (falsy)
  \<open>params\<close>.
\<close>

type_synonym params = "(string \<times> jsval) list"

text \<open>One round of the \<open>forEach\<close> callback: what it does to \<open>result\<close>.\<close>

fun pushParam :: "string \<times> jsval \<Rightarrow> string list \<Rightarrow> string list" where
  "pushParam (key, JBool b) result = result @ [key @ ''='' @ (if b then ''1'' else ''0'')]"
| "pushParam (key, v) result =
     (if truthy v \<and> v \<noteq> JStr [] then result @ [key @ ''='' @ toString v] else result)"

definition buildParams :: "params option \<Rightarrow> string" where
  "buildParams params =
     (case params of
        None \<Rightarrow> []
      | Some ps \<Rightarrow>
          (let result = fold pushParam ps []
           in if length result \<noteq> 0 then ''?'' @ join ''&'' result else []))"

section \<open>More string helpers\<close>

definition upper_char :: "char \<Rightarrow> char" where
  "upper_char c =
     (case map_of (zip ''abcdefghijklmnopqrstuvwxyz'' ''ABCDEFGHIJKLMNOPQRSTUVWXYZ'') c of
        None \<Rightarrow> c | Some u \<Rightarrow> u)"

definition lower_char :: "char \<Rightarrow> char" where
  "lower_char c =
     (case map_of (zip ''ABCDEFGHIJKLMNOPQRSTUVWXYZ'' ''abcdefghijklmnopqrstuvwxyz'') c of
        None \<Rightarrow> c | Some l \<Rightarrow> l)"

text \<open>\<open>toUpperCase\<close> and \<open>toLowerCase\<close> on ASCII strings.\<close>

definition toUpperCase :: "string \<Rightarrow> string" where
  "toUpperCase s = map upper_char s"

definition toLowerCase :: "string \<Rightarrow> string" where
  "toLowerCase s = map lower_char s"

text \<open>A string or number inside a template literal; \<open>None\<close> is \<open>undefined\<close>.\<close>

definition strT :: "string option \<Rightarrow> string" where
  "strT v = (case v of None \<Rightarrow> ''undefined'' | Some x \<Rightarrow> x)"

definition numT :: "int option \<Rightarrow> string" where
  "numT v = (case v of None \<Rightarrow> ''undefined'' | Some n \<Rightarrow> string_of_int n)"

text \<open>\<open>a || b\<close> on optional strings: \<open>a\<close> when it is a non-empty string.\<close>

definition orStr :: "string option \<Rightarrow> string option \<Rightarrow> string option" where
  "orStr a b = (case a of Some x \<Rightarrow> (if x \<noteq> [] then Some x else b) | None \<Rightarrow> b)"

definition falsyStr :: "string option \<Rightarrow> bool" where
  "falsyStr v = (case v of None \<Rightarrow> True | Some x \<Rightarrow> x = [])"

definition falsyNum :: "int option \<Rightarrow> bool" where
  "falsyNum v = (case v of None \<Rightarrow> True | Some n \<Rightarrow> n = 0)"

section \<open>\<open>Buffer.from(text, "base64")\<close>\<close>

text \<open>
  The decoder of the Node runtime that \<open>request\<close> calls on the joined fragments: a
  character outside the base64 alphabets (standard and URL-safe) is skipped, decoding
  stops at the first padding character \<open>=\<close>, four sextets give three bytes and a final
  group of two or three sextets gives one or two bytes. Bytes are numbers below 256.
\<close>

definition unbase64 :: "char \<Rightarrow> nat option" where
  "unbase64 c =
     (let n = (of_char c :: nat) in
      if 65 \<le> n \<and> n \<le> 90 then Some (n - 65)
      else if 97 \<le> n \<and> n \<le> 122 then Some (n - 71)
      else if 48 \<le> n \<and> n \<le> 57 then Some (n + 4)
      else if n = 43 \<or> n = 45 then Some 62
      else if n = 47 \<or> n = 95 then Some 63
      else None)"

fun decode_sextets :: "nat list \<Rightarrow> nat list" where
  "decode_sextets (a # b # c # d # rest) =
     (a * 4 + b div 16) # ((b mod 16) * 16 + c div 4) # ((c mod 4) * 64 + d) # decode_sextets rest"
| "decode_sextets [a, b, c] = [a * 4 + b div 16, (b mod 16) * 16 + c div 4]"
| "decode_sextets [a, b] = [a * 4 + b div 16]"
| "decode_sextets [a] = []"
| "decode_sextets [] = []"

definition base64_decode :: "string \<Rightarrow> nat list" where
  "base64_decode text =
     decode_sextets (List.map_filter unbase64 (takeWhile (\<lambda>c. c \<noteq> CHR ''='') text))"

section \<open>Connection settings\<close>

text \<open>
  \<open>interface ConnectionSettings\<close>. A field that is \<open>undefined\<close> in the JavaScript object
  is \<open>None\<close>: the module itself supplies defaults for missing fields.
\<close>

record ConnectionSettings =
  serverName :: "string option"
  active :: "bool option"
  apiVersion :: "int option"
  https :: "bool option"
  host :: "string option"
  port :: "int option"
  pathPrefix :: "string option"
  ns :: "string option"
  username :: "string option"
  password :: "string option"
  docker :: "bool option"
  dockerService :: "string option"

text \<open>
  \<open>workspaceState\<close>, the runtime key-value store of the extension. The module reads each
  key at one TypeScript type, so the store is kept as one map per type, all indexed by the
  full key. \<open>get(key, default)\<close> gives the stored value, or the default when there is none;
  \<open>update(key, undefined)\<close> removes the key.
\<close>

record memento =
  ws_str :: "string \<rightharpoonup> string"
  ws_num :: "string \<rightharpoonup> int"
  ws_bool :: "string \<rightharpoonup> bool"

definition wsGet :: "(string \<rightharpoonup> 'v) \<Rightarrow> string \<Rightarrow> 'v option \<Rightarrow> 'v option" where
  "wsGet m key dflt = (case m key of Some v \<Rightarrow> Some v | None \<Rightarrow> dflt)"

definition wsRemove :: "string \<Rightarrow> memento \<Rightarrow> memento" where
  "wsRemove key ws =
     ws\<lparr>ws_str := (ws_str ws)(key := None), ws_num := (ws_num ws)(key := None),
        ws_bool := (ws_bool ws)(key := None)\<rparr>"

definition DEFAULT_API_VERSION :: int where
  "DEFAULT_API_VERSION = 1"

text \<open>\<open>string | vscode.Uri\<close>, the constructor argument recorded in \<open>wsOrFile\<close>.\<close>

datatype uri = Uri string

datatype wsOrFile = WsName string | File uri

text \<open>The fields of \<open>class AtelierAPI\<close>; \<open>priv_config\<close> is the private \<open>_config\<close>.\<close>

record AtelierAPI =
  priv_config :: ConnectionSettings
  namespace :: "string option"
  configName :: string
  externalServer :: bool
  wsOrFile :: "wsOrFile option"

text \<open>\<open>get ns()\<close>.\<close>

definition api_ns :: "AtelierAPI \<Rightarrow> string" where
  "api_ns api =
     toUpperCase (case orStr (orStr (namespace api) (ns (priv_config api))) (Some []) of
                    Some x \<Rightarrow> x | None \<Rightarrow> [])"

text \<open>\<open>get config()\<close>, reading the runtime store \<open>ws\<close>.\<close>

definition config :: "memento \<Rightarrow> AtelierAPI \<Rightarrow> ConnectionSettings" where
  "config ws api =
     (let c = priv_config api in
      \<lparr> serverName = serverName c,
        active = Some (case active c of None \<Rightarrow> False | Some b \<Rightarrow> b),
        apiVersion = wsGet (ws_num ws) (configName api @ '':apiVersion'') (Some DEFAULT_API_VERSION),
        https = Some (case https c of None \<Rightarrow> False | Some b \<Rightarrow> b),
        host = (if externalServer api then host c
                else wsGet (ws_str ws) (configName api @ '':host'') (host c)),
        port = (if externalServer api then port c
                else wsGet (ws_num ws) (configName api @ '':port'') (port c)),
        pathPrefix = Some (case pathPrefix c of None \<Rightarrow> [] | Some p \<Rightarrow> p),
        ns = orStr (namespace api) (ns c),
        username = username c,
        password = wsGet (ws_str ws) (configName api @ '':password'') (password c),
        docker = wsGet (ws_bool ws) (configName api @ '':docker'') (Some False),
        dockerService = ws_str ws (configName api @ '':dockerService'') \<rparr>)"

text \<open>\<open>get enabled()\<close> and \<open>get active()\<close>.\<close>

definition enabled :: "AtelierAPI \<Rightarrow> bool option" where
  "enabled api = active (priv_config api)"

definition api_active :: "memento \<Rightarrow> AtelierAPI \<Rightarrow> bool" where
  "api_active ws api =
     (let c = config ws api;
          h = (case host c of None \<Rightarrow> [] | Some x \<Rightarrow> x);
          p = (case port c of None \<Rightarrow> 0 | Some n \<Rightarrow> n)
      in active (priv_config api) = Some True \<and> length h > 0 \<and> p > 0)"

text \<open>\<open>get connInfo()\<close>.\<close>

definition connInfo :: "memento \<Rightarrow> AtelierAPI \<Rightarrow> string" where
  "connInfo ws api =
     (let c = config ws api; n = toUpperCase (api_ns api) in
      (if docker c = Some True
       then ''docker'' @ (if falsyStr (dockerService c) then []
                          else '':'' @ strT (dockerService c) @ '':'' @ numT (port c))
       else strT (host c) @ '':'' @ numT (port c)) @ ''['' @ n @ '']'')"

subsection \<open>\<open>setConnection\<close>\<close>

text \<open>
  \<open>setConnection\<close> reads the extension's settings through \<open>config(...)\<close> and
  \<open>getResolvedConnectionSpec\<close>, which live outside this module; they are parameters:
  \<open>conn_of folder\<close> is the connection block \<open>config("conn", folder)\<close> and
  \<open>conn_server folder\<close> its \<open>server\<close> entry, \<open>has_server name\<close> is
  \<open>config("intersystems.servers").has(name)\<close> and \<open>resolved_spec folder name\<close> is the
  result of \<open>getResolvedConnectionSpec\<close> for the server \<open>name\<close>.
\<close>

record connection_spec =
  scheme :: "string option"
  spec_host :: "string option"
  spec_port :: "int option"
  spec_pathPrefix :: "string option"
  spec_username :: "string option"
  spec_password :: "string option"

record settings_env =
  conn_of :: "string \<Rightarrow> ConnectionSettings"
  conn_server :: "string \<Rightarrow> string option"
  has_server :: "string \<Rightarrow> bool"
  resolved_spec :: "string \<Rightarrow> string \<Rightarrow> connection_spec"

definition setConnection ::
  "settings_env \<Rightarrow> memento \<Rightarrow> string \<Rightarrow> string option \<Rightarrow> AtelierAPI \<Rightarrow> AtelierAPI" where
  "setConnection env ws workspaceFolderName nsArg api0 =
     (let api1 = api0\<lparr>configName := workspaceFolderName\<rparr>;
          conn = conn_of env workspaceFolderName;
          lowered = toLowerCase workspaceFolderName;
          api2 = (if has_server env lowered then api1\<lparr>externalServer := True\<rparr> else api1);
          name = (if has_server env lowered then lowered
                  else if \<not> falsyStr (conn_server env workspaceFolderName)
                  then strT (conn_server env workspaceFolderName)
                  else [])
      in if name \<noteq> [] then
           (let sp = resolved_spec env workspaceFolderName name;
                c = \<lparr> serverName = Some name,
                      active = (if externalServer api2 then Some True else active conn),
                      apiVersion = wsGet (ws_num ws) (configName api2 @ '':apiVersion'')
                                     (Some DEFAULT_API_VERSION),
                      https = Some (scheme sp = Some ''https''),
                      host = spec_host sp,
                      port = spec_port sp,
                      pathPrefix = Some (case spec_pathPrefix sp of None \<Rightarrow> [] | Some p \<Rightarrow> p),
                      ns = orStr nsArg (ns conn),
                      username = spec_username sp,
                      password = spec_password sp,
                      docker = Some False,
                      dockerService = None \<rparr>
            in api2\<lparr>priv_config :=
                 (if ns c = Some [] \<and> externalServer api2 then c\<lparr>active := Some False\<rparr> else c)\<rparr>)
         else api2\<lparr>priv_config := conn\<lparr>ns := orStr nsArg (ns conn), serverName := Some name\<rparr>\<rparr>)"

section \<open>The client state\<close>

text \<open>HTTP header values; \<open>HBasic cred\<close> is \<open>"Basic " + base64(cred)\<close>.\<close>

datatype header_value = HText string | HBasic string

text \<open>The arguments of \<open>request\<close>. \<open>body\<close> is the JSON text of the body argument,
  \<open>noOutput\<close> is \<open>options?.noOutput\<close>, a missing \<open>headers\<close> object is the empty map.\<close>

record request_args =
  minVersion :: int
  http_method :: string
  path :: "string option"
  body :: "string option"
  params :: "params option"
  headers :: "string \<rightharpoonup> header_value"
  noOutput :: bool

text \<open>What the module reads of a \<open>fetch\<close> response; \<open>setCookie\<close> is
  \<open>response.headers.raw()["set-cookie"]\<close>.\<close>

record response =
  status :: nat
  statusText :: string
  setCookie :: "string list option"

definition ok :: "response \<Rightarrow> bool" where
  "ok r = (200 \<le> status r \<and> status r < 300)"

text \<open>
  The response envelope after \<open>JSON.parse\<close>. \<open>content\<close> is an array (of base64 fragments,
  or of objects with or without an \<open>action\<close> field), another truthy value, missing, or,
  after decoding, a buffer of bytes.
\<close>

datatype item = Fragment string | Obj bool

datatype content = CUndefined | CArray "item list" | COther | CBuffer "nat list"

record result =
  rstatus :: "string option"
  content :: content
  enc :: bool

record envelope =
  summary :: "string option"
  console :: "string list option"
  result :: "result option"

datatype error =
    NoValue
  | Message string
  | HttpError nat string
  | Error string
  | FetchError "string option"
  | TypeError
  | SyntaxError

text \<open>\<open>error.code\<close>.\<close>

fun error_code :: "error \<Rightarrow> string option" where
  "error_code (FetchError c) = c"
| "error_code e = None"

datatype promise_value = Cookies "string list" | Envelope envelope

text \<open>
  A call of the async function \<open>request\<close> is a task; its number is the promise the call
  returns. The task is suspended at one of the \<open>await\<close>s of the function or settled.
\<close>

datatype tstate =
    AwaitResolved "string list"
  | AwaitAuth nat
  | AwaitFetch
  | AwaitUpdateCookies response
  | AwaitBuffer
  | Resolved promise_value
  | Rejected error

record fetch_call =
  f_origin :: string
  f_path :: string
  f_method :: string
  f_body :: "string option"
  f_headers :: "string \<rightharpoonup> header_value"

text \<open>The locals of a call that its continuation reads. \<open>t_fetch\<close> is the prepared
  \<open>fetch\<close> call; \<open>f_path\<close> is the argument of \<open>encodeURI\<close>.\<close>

record task =
  t_api :: AtelierAPI
  t_method :: string
  t_target :: string
  t_pathPrefix :: string
  t_username :: "string option"
  t_noOutput :: bool
  t_fetch :: fetch_call
  t_state :: tstate

datatype recheck = CheckConnection bool "uri option" | CheckConnectionPlain

text \<open>
  The module-level state and the collaborators \<open>request\<close> acts on: the pending-auth map,
  the tasks, the cookie cache by namespace \<open>API:host:port\<close>, \<open>workspaceState\<close>, the status
  panel, the output channel, the console sink, the timers set and the \<open>fetch\<close> calls made
  (each with the task that made it and the \<open>Cookie\<close> value sent).
\<close>

record client =
  authRequestMap :: "string \<rightharpoonup> nat"
  tasks :: "task list"
  cache :: "string \<rightharpoonup> string list"
  workspaceState :: memento
  panel_text :: string
  panel_tooltip :: string
  outputChannel :: "string list"
  outputConsole :: "string list list"
  timers :: "(nat \<times> recheck) list"
  fetches :: "(nat \<times> fetch_call \<times> promise_value) list"

text \<open>\<open>get cache()\<close>: the namespace of the cache; \<open>get cookies()\<close>; \<open>updateCookies\<close>
  on the state.\<close>

definition cache_key :: "memento \<Rightarrow> AtelierAPI \<Rightarrow> string" where
  "cache_key ws api = (let c = config ws api in ''API:'' @ strT (host c) @ '':'' @ numT (port c))"

definition cookies :: "client \<Rightarrow> AtelierAPI \<Rightarrow> string list" where
  "cookies s api = (case cache s (cache_key (workspaceState s) api) of None \<Rightarrow> [] | Some cs \<Rightarrow> cs)"

definition updateCookies :: "AtelierAPI \<Rightarrow> string list \<Rightarrow> client \<Rightarrow> client" where
  "updateCookies api newCookies s =
     s\<lparr>cache := (cache s)(cache_key (workspaceState s) api \<mapsto> mergeCookies (cookies s api) newCookies)\<rparr>"

definition clearCookies :: "AtelierAPI \<Rightarrow> client \<Rightarrow> client" where
  "clearCookies api s = s\<lparr>cache := (cache s)(cache_key (workspaceState s) api \<mapsto> [])\<rparr>"

section \<open>\<open>request\<close>\<close>

definition new_task :: "task \<Rightarrow> client \<Rightarrow> nat \<times> client" where
  "new_task t s = (length (tasks s), s\<lparr>tasks := tasks s @ [t]\<rparr>)"

definition head_args :: request_args where
  "head_args = \<lparr> minVersion = 0, http_method = ''HEAD'', path = None, body = None, params = None,
                 headers = Map.empty, noOutput = False \<rparr>"

text \<open>The target key \<open>`${username}@${host}:${port}`\<close> of the pending-auth map.\<close>

definition target_of :: "ConnectionSettings \<Rightarrow> string" where
  "target_of c = strT (username c) @ ''@'' @ strT (host c) @ '':'' @ numT (port c)"

text \<open>The fast failures (lines 229 to 234): the error of the rejected promise, if any.\<close>

definition fast_failure :: "ConnectionSettings \<Rightarrow> request_args \<Rightarrow> error option" where
  "fast_failure c a =
     (if active c \<noteq> Some True \<or> falsyNum (port c) \<or> falsyStr (host c) then Some NoValue
      else if (case apiVersion c of None \<Rightarrow> False | Some v \<Rightarrow> minVersion a > v) then
        Some (Message (strT (path a) @ '' not supported by API version '' @ numT (apiVersion c)))
      else None)"

definition failed_task :: "AtelierAPI \<Rightarrow> request_args \<Rightarrow> ConnectionSettings \<Rightarrow> error \<Rightarrow> task" where
  "failed_task api a c e =
     \<lparr> t_api = api, t_method = http_method a, t_target = [], t_pathPrefix = [],
       t_username = username c, t_noOutput = noOutput a,
       t_fetch = \<lparr> f_origin = [], f_path = [], f_method = http_method a, f_body = None,
                   f_headers = Map.empty \<rparr>,
       t_state = Rejected e \<rparr>"

text \<open>The construction of the \<open>fetch\<close> call (lines 235 to 279): versioned path,
  headers, upper-case method, path prefix, query string, cookies and target.\<close>

definition prepare :: "AtelierAPI \<Rightarrow> request_args \<Rightarrow> ConnectionSettings \<Rightarrow> string list \<Rightarrow> task" where
  "prepare api a c cs =
     (let path1 = (if minVersion a > 0
                   then Some (''v'' @ numT (apiVersion c) @ ''/'' @ strT (path a))
                   else path a);
          headers1 = (headers a)(''Accept'' \<mapsto> HText ''application/json'');
          method1 = toUpperCase (http_method a);
          headers2 = (if method1 \<in> set [''PUT'', ''POST'']
                         \<and> (headers1 ''Content-Type'' = None
                              \<or> headers1 ''Content-Type'' = Some (HText []))
                      then headers1(''Content-Type'' \<mapsto> HText ''application/json'')
                      else headers1);
          headers3 = headers2(''Cache-Control'' \<mapsto> HText ''no-cache'');
          proto = (if https (priv_config api) = Some True then ''https'' else ''http'');
          prefix0 = (case pathPrefix (priv_config api) of None \<Rightarrow> [] | Some p \<Rightarrow> p);
          prefix1 = (if length prefix0 \<noteq> 0 \<and> \<not> startsWith prefix0 ''/''
                     then ''/'' @ prefix0 else prefix0);
          path2 = prefix1 @ ''/api/atelier/''
                    @ (case orStr path1 (Some []) of None \<Rightarrow> [] | Some p \<Rightarrow> p)
                    @ buildParams (params a)
      in \<lparr> t_api = api, t_method = method1, t_target = target_of c,
           t_pathPrefix = prefix1, t_username = username c, t_noOutput = noOutput a,
           t_fetch = \<lparr> f_origin = proto @ ''://'' @ strT (host c) @ '':'' @ numT (port c),
                       f_path = path2, f_method = method1,
                       f_body = (if method1 \<in> set [''PUT'', ''POST''] then body a else None),
                       f_headers = headers3 \<rparr>,
           t_state = AwaitResolved cs \<rparr>)"

text \<open>\<open>headers["Authorization"] = `Basic ${...}`\<close> (line 284).\<close>

definition with_authorization :: "ConnectionSettings \<Rightarrow> task \<Rightarrow> task" where
  "with_authorization c t =
     t\<lparr>t_fetch := (t_fetch t)\<lparr>f_headers := (f_headers (t_fetch t))
          (''Authorization'' \<mapsto> HBasic (strT (username c) @ '':'' @ strT (password c)))\<rparr>\<rparr>"

text \<open>
  The call of \<open>request\<close> up to its first \<open>await\<close> (lines 228 to 291): the fast failures,
  the construction of the \<open>fetch\<close> call and the choice of the promise \<open>auth\<close>. The result
  is the promise returned to the caller and the new state.
\<close>

function request_call :: "AtelierAPI \<Rightarrow> request_args \<Rightarrow> client \<Rightarrow> nat \<times> client" where
  "request_call api a s =
     (let c = config (workspaceState s) api in
      case fast_failure c a of
        Some e \<Rightarrow> new_task (failed_task api a c e) s
      | None \<Rightarrow>
          (let cs = cookies s api; t = prepare api a c cs in
           if length cs \<noteq> 0 \<or> toUpperCase (http_method a) = ''HEAD'' then
             new_task (with_authorization c t) s
           else
             (case authRequestMap s (target_of c) of
                None \<Rightarrow>
                  (let (authRequest, s1) = request_call api head_args s;
                       s2 = s1\<lparr>authRequestMap := (authRequestMap s1)(target_of c \<mapsto> authRequest)\<rparr>
                   in new_task (t\<lparr>t_state := AwaitAuth authRequest\<rparr>) s2)
              | Some authRequest \<Rightarrow> new_task (t\<lparr>t_state := AwaitAuth authRequest\<rparr>) s)))"
  by pat_completeness auto
termination
  by (relation "measure (\<lambda>(api, a, s). if toUpperCase (http_method a) = ''HEAD'' then 0 else 1)")
     (auto simp: head_args_def toUpperCase_def upper_char_def)

declare request_call.simps [simp del]

subsection \<open>The continuations of \<open>request\<close>\<close>

definition set_state :: "nat \<Rightarrow> tstate \<Rightarrow> client \<Rightarrow> client" where
  "set_state tid st s = s\<lparr>tasks := (tasks s)[tid := (tasks s ! tid)\<lparr>t_state := st\<rparr>]\<rparr>"

text \<open>The \<open>catch\<close> block (lines 359 to 369): the error is thrown again after the
  side effects of a refused connection.\<close>

definition catch_error :: "nat \<Rightarrow> error \<Rightarrow> client \<Rightarrow> client" where
  "catch_error tid e s =
     (let t = tasks s ! tid in
      if error_code e = Some ''ECONNREFUSED'' then
        set_state tid (Rejected e)
          (s\<lparr>authRequestMap := (authRequestMap s)(t_target t := None),
             panel_text := connInfo (workspaceState s) (t_api t) @ '' $(debug-disconnect)'',
             panel_tooltip := ''Disconnected'',
             workspaceState := wsRemove (configName (t_api t) @ '':port'')
                                 (wsRemove (configName (t_api t) @ '':host'') (workspaceState s)),
             timers := timers s @ [(30000, CheckConnectionPlain)]\<rparr>)
      else set_state tid (Rejected e) s)"

text \<open>\<open>fetch(...)\<close> with the awaited cookie (lines 295 to 306).\<close>

definition do_fetch :: "nat \<Rightarrow> promise_value \<Rightarrow> client \<Rightarrow> client" where
  "do_fetch tid cookie s =
     set_state tid AwaitFetch (s\<lparr>fetches := fetches s @ [(tid, t_fetch (tasks s ! tid), cookie)]\<rparr>)"

text \<open>
  \<open>const cookie = await auth\<close> (line 294). A task waiting for the promise of another
  call goes on only when that promise is settled: with its value, or into the \<open>catch\<close>
  block with its error.
\<close>

definition request_wake :: "nat \<Rightarrow> client \<Rightarrow> client option" where
  "request_wake tid s =
     (if tid < length (tasks s) then
        (case t_state (tasks s ! tid) of
           AwaitResolved cs \<Rightarrow> Some (do_fetch tid (Cookies cs) s)
         | AwaitAuth p \<Rightarrow>
             (if p < length (tasks s) then
                (case t_state (tasks s ! p) of
                   Resolved v \<Rightarrow> Some (do_fetch tid v s)
                 | Rejected e \<Rightarrow> Some (catch_error tid e s)
                 | _ \<Rightarrow> None)
              else None)
         | _ \<Rightarrow> None)
      else None)"

datatype fetch_outcome = Responded response | Failed "string option"

text \<open>The \<open>checkConnection\<close> timer of the 401 branch (lines 309 to 313).\<close>

definition recheck_timers :: "AtelierAPI \<Rightarrow> (nat \<times> recheck) list" where
  "recheck_timers api =
     (case wsOrFile api of
        None \<Rightarrow> []
      | Some (WsName n) \<Rightarrow> (if n \<noteq> [] then [(1000, CheckConnection True None)] else [])
      | Some (File u) \<Rightarrow> [(1000, CheckConnection True (Some u))])"

text \<open>The \<open>fetch\<close> promise settles (lines 307 to 316): the 401 branch, or the
  cookie update up to its \<open>await\<close>.\<close>

definition request_response :: "nat \<Rightarrow> fetch_outcome \<Rightarrow> client \<Rightarrow> client option" where
  "request_response tid out s =
     (if tid < length (tasks s) \<and> t_state (tasks s ! tid) = AwaitFetch then
        (let t = tasks s ! tid in
         case out of
           Failed code \<Rightarrow> Some (catch_error tid (FetchError code) s)
         | Responded r \<Rightarrow>
             (if status r = 401 then
                Some (catch_error tid (HttpError (status r) (statusText r))
                        (s\<lparr>authRequestMap := (authRequestMap s)(t_target t := None),
                           timers := timers s @ recheck_timers (t_api t)\<rparr>))
              else
                Some (set_state tid (AwaitUpdateCookies r)
                        (updateCookies (t_api t)
                           (case setCookie r of None \<Rightarrow> [] | Some cs \<Rightarrow> cs) s))))
      else None)"

text \<open>After \<open>await this.updateCookies(...)\<close> (lines 317 to 328).\<close>

definition request_updated :: "nat \<Rightarrow> client \<Rightarrow> client option" where
  "request_updated tid s =
     (if tid < length (tasks s) then
        (let t = tasks s ! tid in
         case t_state t of
           AwaitUpdateCookies r \<Rightarrow>
             (let s1 = s\<lparr>panel_text := connInfo (workspaceState s) (t_api t),
                         panel_tooltip := ''Connected''
                            @ (if t_pathPrefix t \<noteq> [] then '' to '' @ t_pathPrefix t else [])
                            @ '' as '' @ strT (t_username t)\<rparr>
              in if t_method t = ''HEAD'' then
                   Some (set_state tid (Resolved (Cookies (cookies s1 (t_api t))))
                           (s1\<lparr>authRequestMap := (authRequestMap s1)(t_target t := None)\<rparr>))
                 else if \<not> ok r then
                   Some (catch_error tid (HttpError (status r) (statusText r)) s1)
                 else Some (set_state tid AwaitBuffer s1))
         | _ \<Rightarrow> None)
      else None)"

datatype body_outcome = Json envelope | NotJson | BodyFailed "string option"

text \<open>\<open>data.result.content.join("")\<close> and the decoding of encoded content
  (lines 332 to 335).\<close>

fun item_text :: "item \<Rightarrow> string" where
  "item_text (Fragment f) = f"
| "item_text (Obj a) = ''[object Object]''"

definition decode_content :: "envelope \<Rightarrow> error + envelope" where
  "decode_content data =
     (case result data of
        None \<Rightarrow> Inr data
      | Some r \<Rightarrow>
          (if enc r \<and> content r \<noteq> CUndefined then
             (case content r of
                CArray xs \<Rightarrow>
                  Inr (data\<lparr>result := Some (r\<lparr>enc := False,
                         content := CBuffer (base64_decode (join [] (map item_text xs)))\<rparr>)\<rparr>)
              | CBuffer bs \<Rightarrow>
                  Inr (data\<lparr>result := Some (r\<lparr>enc := False,
                         content := CBuffer (base64_decode (join [] (map string_of_nat bs)))\<rparr>)\<rparr>)
              | _ \<Rightarrow> Inl TypeError)
           else Inr data))"

text \<open>\<open>isStudioAction\<close> (lines 338 to 342).\<close>

definition isStudioAction :: "content \<Rightarrow> bool" where
  "isStudioAction c =
     (case c of
        CArray (Obj a # xs) \<Rightarrow> a
      | _ \<Rightarrow> False)"

text \<open>The console lines (lines 336 to 346); reading \<open>data.result.content\<close> of a missing
  \<open>result\<close> is a \<open>TypeError\<close>.\<close>

definition forward_console :: "bool \<Rightarrow> envelope \<Rightarrow> client \<Rightarrow> error + client" where
  "forward_console quiet data s =
     (case console data of
        None \<Rightarrow> Inr s
      | Some ls \<Rightarrow>
          (case result data of
             None \<Rightarrow> Inl TypeError
           | Some r \<Rightarrow>
               (if \<not> isStudioAction (content r) \<and> \<not> quiet
                then Inr (s\<lparr>outputConsole := outputConsole s @ [ls]\<rparr>) else Inr s)))"

text \<open>The classification of the envelope (lines 347 to 358): the new output channel and
  the error thrown or the value returned.\<close>

definition classify :: "envelope \<Rightarrow> string list \<Rightarrow> string list \<times> (error + promise_value)" where
  "classify data channel =
     (case result data of
        None \<Rightarrow> (channel, Inl TypeError)
      | Some r \<Rightarrow>
          (if \<not> falsyStr (rstatus r) \<and> rstatus r \<noteq> Some [] then
             (channel @ [strT (rstatus r)], Inl (Error (strT (rstatus r))))
           else if \<not> falsyStr (summary data) then (channel, Inl (Error (strT (summary data))))
           else if \<not> falsyStr (rstatus r) then (channel, Inl (Error (strT (rstatus r))))
           else (channel, Inr (Envelope data))))"

text \<open>After \<open>await response.buffer()\<close> (lines 329 to 358).\<close>

definition request_body :: "nat \<Rightarrow> body_outcome \<Rightarrow> client \<Rightarrow> client option" where
  "request_body tid out s =
     (if tid < length (tasks s) \<and> t_state (tasks s ! tid) = AwaitBuffer then
        (let t = tasks s ! tid in
         case out of
           BodyFailed code \<Rightarrow> Some (catch_error tid (FetchError code) s)
         | NotJson \<Rightarrow> Some (catch_error tid SyntaxError s)
         | Json data0 \<Rightarrow>
             (case decode_content data0 of
                Inl e \<Rightarrow> Some (catch_error tid e s)
              | Inr data \<Rightarrow>
                  (case forward_console (t_noOutput t) data s of
                     Inl e \<Rightarrow> Some (catch_error tid e s)
                   | Inr s1 \<Rightarrow>
                       (case classify data (outputChannel s1) of
                          (channel, Inl e) \<Rightarrow>
                            Some (catch_error tid e (s1\<lparr>outputChannel := channel\<rparr>))
                        | (channel, Inr v) \<Rightarrow>
                            Some (set_state tid (Resolved v) (s1\<lparr>outputChannel := channel\<rparr>))))))
      else None)"

subsection \<open>Runs of the event loop\<close>

text \<open>
  The runtime runs one piece of code at a time, from one \<open>await\<close> to the next: a call of
  \<open>request\<close> by a user of the module, or the continuation of a suspended call. A step
  that is not enabled gives \<open>None\<close>.
\<close>

datatype event =
    Call AtelierAPI request_args
  | Wake nat
  | FetchDone nat fetch_outcome
  | CookiesDone nat
  | BufferDone nat body_outcome

fun step :: "event \<Rightarrow> client \<Rightarrow> client option" where
  "step (Call api a) s = Some (snd (request_call api a s))"
| "step (Wake tid) s = request_wake tid s"
| "step (FetchDone tid out) s = request_response tid out s"
| "step (CookiesDone tid) s = request_updated tid s"
| "step (BufferDone tid out) s = request_body tid out s"

fun run :: "event list \<Rightarrow> client \<Rightarrow> client option" where
  "run [] s = Some s"
| "run (e # es) s = (case step e s of None \<Rightarrow> None | Some s1 \<Rightarrow> run es s1)"

text \<open>Calls of \<open>request\<close> made one after the other with no continuation in between,
  as concurrent callers make them; the result lists the promises returned.\<close>

fun request_calls :: "(AtelierAPI \<times> request_args) list \<Rightarrow> client \<Rightarrow> nat list \<times> client" where
  "request_calls [] s = ([], s)"
| "request_calls ((api, a) # rest) s =
     (let (p, s1) = request_call api a s; (ps, s2) = request_calls rest s1 in (p # ps, s2))"

definition settled :: "client \<Rightarrow> nat \<Rightarrow> bool" where
  "settled s tid =
     (tid < length (tasks s) \<and>
      (case t_state (tasks s ! tid) of Resolved v \<Rightarrow> True | Rejected e \<Rightarrow> True | _ \<Rightarrow> False))"

section \<open>Reference definitions and example inputs\<close>

text \<open>
  The rule the specification gives for the query string: a boolean is always written, as
  \<open>1\<close> or \<open>0\<close>; any other value is written when it is truthy and not the empty string.
\<close>

fun spec_emitted :: "string \<times> jsval \<Rightarrow> bool" where
  "spec_emitted (key, JBool b) = True"
| "spec_emitted (key, v) = (truthy v \<and> v \<noteq> JStr [])"

fun spec_text :: "string \<times> jsval \<Rightarrow> string" where
  "spec_text (key, JBool b) = key @ ''='' @ (if b then ''1'' else ''0'')"
| "spec_text (key, v) = key @ ''='' @ toString v"

text \<open>The layering rule of the specification: the runtime override if present, else the
  static value.\<close>

definition effective :: "'v option \<Rightarrow> 'v option \<Rightarrow> 'v option" where
  "effective override static = (case override of Some v \<Rightarrow> Some v | None \<Rightarrow> static)"

text \<open>A workspace connection \<open>f\<close> to \<open>h:52773\<close> for user \<open>u\<close>, an empty runtime store
  and a settings environment with one registered server \<open>srv\<close> and an empty namespace.\<close>

definition ex_ws :: memento where
  "ex_ws = \<lparr>ws_str = Map.empty, ws_num = Map.empty, ws_bool = Map.empty\<rparr>"

definition ex_settings :: ConnectionSettings where
  "ex_settings =
     \<lparr> serverName = Some ''srv'', active = Some True, apiVersion = Some 1, https = None,
       host = Some ''h'', port = Some 52773, pathPrefix = None, ns = Some ''user'',
       username = Some ''u'', password = Some ''p'', docker = None, dockerService = None \<rparr>"

definition ex_api :: AtelierAPI where
  "ex_api = \<lparr> priv_config = ex_settings, namespace = None, configName = ''f'',
              externalServer = False, wsOrFile = Some (WsName ''f'') \<rparr>"

definition ex_env :: settings_env where
  "ex_env = \<lparr> conn_of = (\<lambda>folder. ex_settings\<lparr>ns := Some []\<rparr>),
              conn_server = (\<lambda>folder. None),
              has_server = (\<lambda>name. name = ''srv''),
              resolved_spec = (\<lambda>folder name.
                 \<lparr> scheme = Some ''http'', spec_host = Some ''h'', spec_port = Some 52773,
                   spec_pathPrefix = None, spec_username = Some ''u'',
                   spec_password = Some ''p'' \<rparr>) \<rparr>"

text \<open>A request for a document, a 401 response that carries a cookie, an envelope with
  encoded content in two padded fragments and an envelope with a server status.\<close>

definition ex_args :: request_args where
  "ex_args = \<lparr> minVersion = 1, http_method = ''get'', path = Some ''USER/doc/a.cls'',
               body = None, params = Some [(''flag'', JBool True)], headers = Map.empty,
               noOutput = False \<rparr>"

definition ex_401 :: response where
  "ex_401 = \<lparr> status = 401, statusText = ''Unauthorized'', setCookie = Some [''sid=9''] \<rparr>"

definition ex_encoded :: envelope where
  "ex_encoded = \<lparr> summary = Some [], console = None,
       result = Some \<lparr> rstatus = None, content = CArray [Fragment ''QQ=='', Fragment ''QQ==''],
                       enc = True \<rparr> \<rparr>"

definition ex_failed :: envelope where
  "ex_failed = \<lparr> summary = Some ''summary'', console = Some [''line''],
       result = Some \<lparr> rstatus = Some ''bad'', content = CUndefined, enc = False \<rparr> \<rparr>"

text \<open>A state with two calls of \<open>api\<close> suspended in the state \<open>st\<close>, and the session
  cookie \<open>sid=1\<close> in the cache.\<close>

definition ex_client :: "tstate \<Rightarrow> AtelierAPI \<Rightarrow> client" where
  "ex_client st api =
     (let t = (prepare api ex_args (config ex_ws api) [''sid=1''])\<lparr>t_state := st\<rparr>
      in \<lparr> authRequestMap = Map.empty, tasks = [t, t], cache = [''API:h:52773'' \<mapsto> [''sid=1'']],
           workspaceState = ex_ws, panel_text = [], panel_tooltip = [], outputChannel = [],
           outputConsole = [], timers = [], fetches = [] \<rparr>)"

text \<open>An idle client with empty cookie cache, and three calls for the same target: two
  \<open>GET\<close> and one \<open>POST\<close>.\<close>

definition ex_idle :: client where
  "ex_idle = \<lparr> authRequestMap = Map.empty, tasks = [], cache = Map.empty, workspaceState = ex_ws,
       panel_text = [], panel_tooltip = [], outputChannel = [], outputConsole = [],
       timers = [], fetches = [] \<rparr>"

definition ex_calls :: "(AtelierAPI \<times> request_args) list" where
  "ex_calls = [(ex_api, ex_args), (ex_api, ex_args\<lparr>http_method := ''post''\<rparr>), (ex_api, ex_args)]"

text \<open>The task of the probe \<open>this.request(0, "HEAD")\<close>.\<close>

definition probe_task :: "AtelierAPI \<Rightarrow> client \<Rightarrow> task" where
  "probe_task api s =
     (let c = config (workspaceState s) api in
      case fast_failure c head_args of
        Some e \<Rightarrow> failed_task api head_args c e
      | None \<Rightarrow> with_authorization c (prepare api head_args c (cookies s api)))"

section \<open>Properties\<close>

subsection \<open>Query parameters\<close>

lemma fold_pushParam:
  "fold pushParam ps acc = acc @ map spec_text (filter spec_emitted ps)"
proof (induction ps arbitrary: acc)
  case Nil
  show ?case by simp
next
  case (Cons p ps)
  obtain k v where p: "p = (k, v)" by (cases p)
  show ?case unfolding p by (cases v) (simp_all add: Cons.IH)
qed

text \<open>
  Claim C8. \<open>buildParams\<close> writes exactly the entries the rule selects, each as
  \<open>key=text\<close> with \<open>1\<close>/\<open>0\<close> for booleans, in the order of the input entries, joined by
  \<open>&\<close> after the \<open>?\<close> that starts a query string; a missing object or an empty
  selection gives the empty string. The object
  \<open>{flag: true, name: "", count: 0, x: "v"}\<close> gives \<open>flag=1&x=v\<close> after the \<open>?\<close>.
\<close>

theorem buildParams_encoding:
  "buildParams None = []
   \<and> buildParams (Some ps) =
       (if filter spec_emitted ps = [] then []
        else ''?'' @ join ''&'' (map spec_text (filter spec_emitted ps)))
   \<and> buildParams (Some [(''flag'', JBool True), (''name'', JStr []), (''count'', JNum 0),
                         (''x'', JStr ''v'')]) = ''?'' @ ''flag=1&x=v''"
  by (simp add: buildParams_def fold_pushParam Let_def)

subsection \<open>Cookies\<close>

text \<open>
  Claim C3. \<open>updateCookies\<close> looks the incoming cookie up with
  \<open>el.startsWith(cookieName)\<close>, so a stored cookie whose text merely begins with the
  incoming name is taken for it. The stored cookie \<open>ab=1\<close> is replaced by the incoming
  \<open>a=2\<close>; from the stored \<open>ab=1, a=1\<close> the input \<open>a=2\<close> leaves two cookies named
  \<open>a\<close>; and applying the input \<open>ab=1, a=2\<close> to the empty cache once gives \<open>a=2\<close> while
  applying it a second time gives \<open>a=2, ab=1\<close>. The example of the specification,
  \<open>a=1, b=2\<close> then \<open>a=3\<close>, does give \<open>a=3, b=2\<close>.
\<close>

theorem updateCookies_prefix_match:
  "mergeCookies [''ab=1''] [''a=2''] = [''a=2'']
   \<and> mergeCookies [''ab=1'', ''a=1''] [''a=2''] = [''a=2'', ''a=1'']
   \<and> mergeCookies [] [''ab=1'', ''a=2''] = [''a=2'']
   \<and> mergeCookies (mergeCookies [] [''ab=1'', ''a=2'']) [''ab=1'', ''a=2''] = [''a=2'', ''ab=1'']
   \<and> mergeCookies [''a=1'', ''b=2''] [''a=3''] = [''a=3'', ''b=2'']"
  by (simp add: mergeCookies_def updateCookie_def cookieName_def)

subsection \<open>Connection settings\<close>

text \<open>
  Claim C2, as stated, fails: for a connection resolved through an external server the
  getter ignores a stored \<open>host\<close> override, and with no stored API version it answers the
  constant default 1 whatever the static settings say.
\<close>

theorem config_override_counterexample:
  "ws_str (ex_ws\<lparr>ws_str := [''f:host'' \<mapsto> ''learned'']\<rparr>) (configName ex_api @ '':host'') = Some ''learned''
   \<and> host (config (ex_ws\<lparr>ws_str := [''f:host'' \<mapsto> ''learned'']\<rparr>) (ex_api\<lparr>externalServer := True\<rparr>)) = Some ''h''
   \<and> apiVersion (priv_config (ex_api\<lparr>priv_config := ex_settings\<lparr>apiVersion := Some 3\<rparr>\<rparr>)) = Some 3
   \<and> ws_num ex_ws (configName ex_api @ '':apiVersion'') = None
   \<and> apiVersion (config ex_ws (ex_api\<lparr>priv_config := ex_settings\<lparr>apiVersion := Some 3\<rparr>\<rparr>)) = Some 1"
  by (simp add: config_def ex_ws_def ex_api_def ex_settings_def wsGet_def Let_def
      DEFAULT_API_VERSION_def)

text \<open>
  Claim C2, amended. The \<open>config\<close> getter answers: for \<open>password\<close>, the stored override
  if present, else the static value; for \<open>host\<close> and \<open>port\<close>, the static value when the
  connection is an external server, and otherwise the stored override if present, else
  the static value; for \<open>apiVersion\<close>, the stored override if present, else the constant
  \<open>DEFAULT_API_VERSION\<close>; for \<open>docker\<close>, the stored override if present, else \<open>false\<close>.
\<close>

theorem config_effective_values:
  "password (config ws api) =
     effective (ws_str ws (configName api @ '':password'')) (password (priv_config api))
   \<and> host (config ws api) =
       (if externalServer api then host (priv_config api)
        else effective (ws_str ws (configName api @ '':host'')) (host (priv_config api)))
   \<and> port (config ws api) =
       (if externalServer api then port (priv_config api)
        else effective (ws_num ws (configName api @ '':port'')) (port (priv_config api)))
   \<and> apiVersion (config ws api) =
       effective (ws_num ws (configName api @ '':apiVersion'')) (Some DEFAULT_API_VERSION)
   \<and> docker (config ws api) =
       effective (ws_bool ws (configName api @ '':docker'')) (Some False)"
  by (simp add: config_def effective_def wsGet_def Let_def)

lemma toLowerCase_Nil: "toLowerCase x = [] \<longleftrightarrow> x = []"
  by (simp add: toLowerCase_def)

text \<open>
  Claim C7. The \<open>active\<close> getter is true exactly when the active flag of the settings is
  set, the effective host is a non-empty string and the effective port is positive. And
  when \<open>setConnection\<close> resolves a non-empty folder name through a registered external
  server and the resolved namespace (the argument, else the one of the connection block)
  is the empty string, the settings it stores have \<open>active = false\<close> whatever the
  connection block says, so the \<open>config\<close> getter and the \<open>active\<close> getter answer false
  for every runtime store.
\<close>

theorem active_flag_host_port:
  "api_active ws api =
     (active (priv_config api) = Some True
      \<and> (\<exists>h. host (config ws api) = Some h \<and> h \<noteq> [])
      \<and> (\<exists>p. port (config ws api) = Some p \<and> 0 < p))
   \<and> (has_server env (toLowerCase folder) \<longrightarrow> folder \<noteq> [] \<longrightarrow>
        orStr nsArg (ns (conn_of env folder)) = Some [] \<longrightarrow>
          externalServer (setConnection env ws folder nsArg api0)
          \<and> active (priv_config (setConnection env ws folder nsArg api0)) = Some False
          \<and> active (config ws' (setConnection env ws folder nsArg api0)) = Some False
          \<and> \<not> api_active ws' (setConnection env ws folder nsArg api0))"
proof -
  have getter: "api_active ws api =
     (active (priv_config api) = Some True
      \<and> (\<exists>h. host (config ws api) = Some h \<and> h \<noteq> [])
      \<and> (\<exists>p. port (config ws api) = Some p \<and> 0 < p))"
    by (cases "host (config ws api)"; cases "port (config ws api)")
       (simp_all add: api_active_def Let_def)
  have forced: "active (priv_config (setConnection env ws folder nsArg api0)) = Some False
      \<and> externalServer (setConnection env ws folder nsArg api0)"
    if "has_server env (toLowerCase folder)" "folder \<noteq> []"
       "orStr nsArg (ns (conn_of env folder)) = Some []"
    using that by (simp add: setConnection_def Let_def toLowerCase_Nil)
  show ?thesis
    using getter forced by (auto simp: api_active_def config_def Let_def)
qed

theorem active_flag_host_port_witness:
  "has_server ex_env (toLowerCase ''SRV'') \<and> ''SRV'' \<noteq> []
   \<and> active (conn_of ex_env ''SRV'') = Some True
   \<and> orStr None (ns (conn_of ex_env ''SRV'')) = Some []
   \<and> active (priv_config (setConnection ex_env ex_ws ''SRV'' None ex_api)) = Some False
   \<and> \<not> api_active ex_ws (setConnection ex_env ex_ws ''SRV'' None ex_api)
   \<and> api_active ex_ws ex_api"
proof -
  have h1: "has_server ex_env (toLowerCase ''SRV'')"
    by (simp add: ex_env_def toLowerCase_def lower_char_def)
  have h2: "orStr None (ns (conn_of ex_env ''SRV'')) = Some []"
    by (simp add: ex_env_def orStr_def)
  have h3: "api_active ex_ws ex_api"
    using active_flag_host_port [where ws = ex_ws and api = ex_api]
    by (simp add: config_def ex_api_def ex_settings_def ex_ws_def wsGet_def Let_def)
  show ?thesis
    using h1 h2 h3
      active_flag_host_port [where env = ex_env and folder = "''SRV''" and nsArg = None
        and ws = ex_ws and api0 = ex_api and ws' = ex_ws]
    by (simp add: ex_env_def ex_settings_def)
qed

subsection \<open>Facts about the state updates\<close>

lemma set_state_fields [simp]:
  "tasks (set_state tid st s) = (tasks s)[tid := (tasks s ! tid)\<lparr>t_state := st\<rparr>]"
  "authRequestMap (set_state tid st s) = authRequestMap s"
  "cache (set_state tid st s) = cache s"
  "workspaceState (set_state tid st s) = workspaceState s"
  "panel_text (set_state tid st s) = panel_text s"
  "panel_tooltip (set_state tid st s) = panel_tooltip s"
  "outputChannel (set_state tid st s) = outputChannel s"
  "outputConsole (set_state tid st s) = outputConsole s"
  "timers (set_state tid st s) = timers s"
  "fetches (set_state tid st s) = fetches s"
  by (simp_all add: set_state_def)

lemma catch_error_plain:
  "error_code e \<noteq> Some ''ECONNREFUSED'' \<Longrightarrow> catch_error tid e s = set_state tid (Rejected e) s"
  by (simp add: catch_error_def Let_def)

lemma prepare_fields [simp]:
  "t_api (prepare api a c cs) = api"
  "t_target (prepare api a c cs) = target_of c"
  "t_method (prepare api a c cs) = toUpperCase (http_method a)"
  "t_state (prepare api a c cs) = AwaitResolved cs"
  "t_noOutput (prepare api a c cs) = noOutput a"
  "t_username (prepare api a c cs) = username c"
  by (simp_all add: prepare_def Let_def)

lemma string_of_int_52773: "string_of_int 52773 = ''52773''"
  by (simp add: string_of_int_def string_of_nat.simps digit_char_def)

lemma ex_client_cookies: "cookies (ex_client st ex_api) ex_api = [''sid=1'']"
  by (simp add: cookies_def cache_key_def config_def ex_client_def ex_api_def ex_settings_def
      ex_ws_def wsGet_def strT_def numT_def string_of_int_52773 Let_def)

lemma forward_console_frame:
  "forward_console q data s = Inr s1 \<Longrightarrow>
     tasks s1 = tasks s \<and> outputChannel s1 = outputChannel s \<and> authRequestMap s1 = authRequestMap s
     \<and> cache s1 = cache s \<and> workspaceState s1 = workspaceState s \<and> fetches s1 = fetches s
     \<and> timers s1 = timers s \<and> panel_text s1 = panel_text s \<and> panel_tooltip s1 = panel_tooltip s"
  by (auto simp: forward_console_def split: option.splits if_splits)

lemma forward_console_total:
  "result data = Some r \<Longrightarrow> \<exists>s1. forward_console q data s = Inr s1"
  by (simp add: forward_console_def split: option.splits)

lemma request_response_401:
  assumes "tid < length (tasks s)" "t_state (tasks s ! tid) = AwaitFetch" "status r = 401"
  shows "request_response tid (Responded r) s =
     Some (set_state tid (Rejected (HttpError 401 (statusText r)))
            (s\<lparr>authRequestMap := (authRequestMap s)(t_target (tasks s ! tid) := None),
               timers := timers s @ recheck_timers (t_api (tasks s ! tid))\<rparr>))"
  using assms by (simp add: request_response_def Let_def catch_error_plain)

lemma join_fragments: "join [] (map item_text (map Fragment frags)) = concat frags"
  by (induction frags rule: induct_list012) simp_all

subsection \<open>The response envelope\<close>

lemma request_body_resolves:
  assumes task: "tid < length (tasks s)" "t_state (tasks s ! tid) = AwaitBuffer"
    and dec: "decode_content data0 = Inr data"
    and res: "result data = Some r"
    and quiet: "falsyStr (rstatus r)" "falsyStr (summary data)"
  shows "\<exists>s'. request_body tid (Json data0) s = Some s'
     \<and> t_state (tasks s' ! tid) = Resolved (Envelope data)"
proof -
  obtain s1 where s1: "forward_console (t_noOutput (tasks s ! tid)) data s = Inr s1"
    using forward_console_total [OF res] by blast
  note fr = forward_console_frame [OF s1]
  have "classify data (outputChannel s1) = (outputChannel s1, Inr (Envelope data))"
    using res quiet by (simp add: classify_def)
  then show ?thesis
    using task dec s1 fr by (simp add: request_body_def Let_def)
qed

text \<open>
  Claim C4. When the body of a response has been parsed (and decoded) into an envelope
  with a \<open>result\<close>, \<open>request\<close> settles in this order: a non-empty \<open>result.status\<close> is
  appended to the output channel and the call rejects with it; otherwise a non-empty
  \<open>status.summary\<close> rejects the call with it, the output channel untouched; otherwise
  the call resolves with the envelope. The second test of \<open>result.status\<close> in the code
  repeats the first one, so it decides nothing more: after an empty \<open>result.status\<close> and
  an empty summary the call resolves.
\<close>

theorem envelope_classification:
  assumes task: "tid < length (tasks s)" "t_state (tasks s ! tid) = AwaitBuffer"
    and dec: "decode_content data0 = Inr data"
    and res: "result data = Some r"
  shows "\<exists>s'. request_body tid (Json data0) s = Some s'
     \<and> (\<forall>st. rstatus r = Some st \<and> st \<noteq> [] \<longrightarrow>
           outputChannel s' = outputChannel s @ [st]
           \<and> t_state (tasks s' ! tid) = Rejected (Error st))
     \<and> (falsyStr (rstatus r) \<longrightarrow>
           (\<forall>m. summary data = Some m \<and> m \<noteq> [] \<longrightarrow>
              outputChannel s' = outputChannel s
              \<and> t_state (tasks s' ! tid) = Rejected (Error m)))
     \<and> (falsyStr (rstatus r) \<longrightarrow> falsyStr (summary data) \<longrightarrow>
           outputChannel s' = outputChannel s
           \<and> t_state (tasks s' ! tid) = Resolved (Envelope data))"
proof -
  obtain s1 where s1: "forward_console (t_noOutput (tasks s ! tid)) data s = Inr s1"
    using forward_console_total [OF res] by blast
  note fr = forward_console_frame [OF s1]
  have len: "tid < length (tasks s1)" using task fr by simp
  show ?thesis
  proof (cases "falsyStr (rstatus r)")
    case False
    then obtain st where st: "rstatus r = Some st" "st \<noteq> []"
      by (auto simp: falsyStr_def split: option.splits)
    have "classify data (outputChannel s1) = (outputChannel s1 @ [st], Inl (Error st))"
      using res st by (simp add: classify_def falsyStr_def strT_def)
    then show ?thesis
      using task dec s1 fr len st False
      by (simp add: request_body_def Let_def catch_error_plain)
  next
    case True
    note noStatus = this
    show ?thesis
    proof (cases "falsyStr (summary data)")
      case False
      then obtain m where m: "summary data = Some m" "m \<noteq> []"
        by (auto simp: falsyStr_def split: option.splits)
      have "classify data (outputChannel s1) = (outputChannel s1, Inl (Error m))"
        using res m noStatus by (simp add: classify_def falsyStr_def strT_def)
      then show ?thesis
        using task dec s1 fr len m noStatus False
        by (auto simp: request_body_def Let_def catch_error_plain falsyStr_def)
    next
      case True
      have "classify data (outputChannel s1) = (outputChannel s1, Inr (Envelope data))"
        using res True noStatus by (simp add: classify_def)
      then show ?thesis
        using task dec s1 fr len True noStatus
        by (auto simp: request_body_def Let_def falsyStr_def)
    qed
  qed
qed

theorem envelope_classification_witness:
  "0 < length (tasks (ex_client AwaitBuffer ex_api))
   \<and> t_state (tasks (ex_client AwaitBuffer ex_api) ! 0) = AwaitBuffer
   \<and> decode_content ex_failed = Inr ex_failed
   \<and> rstatus \<lparr> rstatus = Some ''bad'', content = CUndefined, enc = False \<rparr> = Some ''bad''
   \<and> (\<exists>s'. request_body 0 (Json ex_failed) (ex_client AwaitBuffer ex_api) = Some s'
         \<and> outputChannel s' = [''bad'']
         \<and> t_state (tasks s' ! 0) = Rejected (Error ''bad''))"
proof -
  have h1: "0 < length (tasks (ex_client AwaitBuffer ex_api))"
    and h2: "t_state (tasks (ex_client AwaitBuffer ex_api) ! 0) = AwaitBuffer"
    and h5: "outputChannel (ex_client AwaitBuffer ex_api) = []"
    by (simp_all add: ex_client_def Let_def)
  have h3: "decode_content ex_failed = Inr ex_failed"
    and h4: "result ex_failed = Some \<lparr> rstatus = Some ''bad'', content = CUndefined, enc = False \<rparr>"
    by (simp_all add: decode_content_def ex_failed_def)
  show ?thesis
    using h1 h2 h3 h5 envelope_classification [OF h1 h2 h3 h4] by auto
qed

text \<open>
  Claim C9, as stated, fails at its example: the two fragments \<open>QQ==\<close> and \<open>QQ==\<close> are
  joined to \<open>QQ==QQ==\<close> and decoded once, the decoder stops at the first padding
  character, and the content is the single byte 65 (\<open>A\<close>), not the two bytes of \<open>AA\<close>.
\<close>

theorem decode_fragments_counterexample:
  "decode_content ex_encoded =
     Inr (ex_encoded\<lparr>result := Some \<lparr> rstatus = None, content = CBuffer [65], enc = False \<rparr>\<rparr>)
   \<and> [65] \<noteq> map (of_char :: char \<Rightarrow> nat) ''AA''"
  by (simp add: decode_content_def ex_encoded_def base64_decode_def unbase64_def
      List.map_filter_simps)

text \<open>
  Claim C9, amended. For every envelope whose \<open>result.enc\<close> is true and whose
  \<open>result.content\<close> is a sequence of base64 fragments, \<open>request\<close> joins the fragments,
  decodes the joined text once, puts the bytes in \<open>result.content\<close> and sets
  \<open>result.enc\<close> to false (so the decoded envelope is left alone by the same step), and
  this is the envelope the call resolves with when it carries no error status. The
  content \<open>QQ==\<close>, \<open>QQ==\<close> decodes to the byte of \<open>A\<close>; fragments with padding only at the
  end, such as \<open>QUFB\<close>, \<open>QQ==\<close>, decode to all their bytes, here those of \<open>AAAA\<close>.
\<close>

theorem decode_fragments_once:
  assumes "result data0 = Some r0" "enc r0" "content r0 = CArray (map Fragment frags)"
  shows "decode_content data0 =
       Inr (data0\<lparr>result := Some (r0\<lparr>enc := False,
              content := CBuffer (base64_decode (concat frags))\<rparr>)\<rparr>)
     \<and> decode_content (data0\<lparr>result := Some (r0\<lparr>enc := False,
              content := CBuffer (base64_decode (concat frags))\<rparr>)\<rparr>) =
       Inr (data0\<lparr>result := Some (r0\<lparr>enc := False,
              content := CBuffer (base64_decode (concat frags))\<rparr>)\<rparr>)
     \<and> (tid < length (tasks s) \<longrightarrow> t_state (tasks s ! tid) = AwaitBuffer \<longrightarrow>
          falsyStr (rstatus r0) \<longrightarrow> falsyStr (summary data0) \<longrightarrow>
          (\<exists>s'. request_body tid (Json data0) s = Some s'
             \<and> t_state (tasks s' ! tid) =
                 Resolved (Envelope (data0\<lparr>result := Some (r0\<lparr>enc := False,
                    content := CBuffer (base64_decode (concat frags))\<rparr>)\<rparr>))))
     \<and> base64_decode (concat [''QQ=='', ''QQ=='']) = map of_char ''A''
     \<and> base64_decode (concat [''QUFB'', ''QQ=='']) = map of_char ''AAAA''"
proof -
  let ?data = "data0\<lparr>result := Some (r0\<lparr>enc := False,
              content := CBuffer (base64_decode (concat frags))\<rparr>)\<rparr>"
  have dec: "decode_content data0 = Inr ?data"
    using assms by (simp add: decode_content_def join_fragments del: map_map)
  have again: "decode_content ?data = Inr ?data"
    by (simp add: decode_content_def)
  have res: "result ?data = Some (r0\<lparr>enc := False,
              content := CBuffer (base64_decode (concat frags))\<rparr>)"
    by simp
  have body: "\<exists>s'. request_body tid (Json data0) s = Some s'
             \<and> t_state (tasks s' ! tid) = Resolved (Envelope ?data)"
    if "tid < length (tasks s)" "t_state (tasks s ! tid) = AwaitBuffer"
       "falsyStr (rstatus r0)" "falsyStr (summary data0)"
    using request_body_resolves [OF that(1,2) dec res] that(3,4) by simp
  have ex: "base64_decode (concat [''QQ=='', ''QQ=='']) = map of_char ''A''"
     "base64_decode (concat [''QUFB'', ''QQ=='']) = map of_char ''AAAA''"
    by (simp_all add: base64_decode_def unbase64_def List.map_filter_simps)
  show ?thesis using dec again body ex by blast
qed

theorem decode_fragments_once_witness:
  "result ex_encoded = Some \<lparr> rstatus = None, content = CArray [Fragment ''QQ=='', Fragment ''QQ==''], enc = True \<rparr>
   \<and> 0 < length (tasks (ex_client AwaitBuffer ex_api))
   \<and> t_state (tasks (ex_client AwaitBuffer ex_api) ! 0) = AwaitBuffer
   \<and> (\<exists>s'. request_body 0 (Json ex_encoded) (ex_client AwaitBuffer ex_api) = Some s'
         \<and> t_state (tasks s' ! 0) =
             Resolved (Envelope (ex_encoded\<lparr>result := Some \<lparr> rstatus = None,
                 content = CBuffer [65], enc = False \<rparr>\<rparr>)))"
proof -
  have h1: "0 < length (tasks (ex_client AwaitBuffer ex_api))"
    and h2: "t_state (tasks (ex_client AwaitBuffer ex_api) ! 0) = AwaitBuffer"
    by (simp_all add: ex_client_def Let_def)
  have h3: "result ex_encoded = Some \<lparr> rstatus = None, content = CArray [Fragment ''QQ=='', Fragment ''QQ==''], enc = True \<rparr>"
    and h4: "falsyStr (summary ex_encoded)"
    by (simp_all add: ex_encoded_def falsyStr_def)
  have h5: "enc \<lparr> rstatus = None, content = CArray [Fragment ''QQ=='', Fragment ''QQ==''], enc = True \<rparr>"
    and h6: "content \<lparr> rstatus = None, content = CArray [Fragment ''QQ=='', Fragment ''QQ==''], enc = True \<rparr>
       = CArray (map Fragment [''QQ=='', ''QQ==''])"
    and h7: "falsyStr (rstatus \<lparr> rstatus = None, content = CArray [Fragment ''QQ=='', Fragment ''QQ==''], enc = True \<rparr>)"
    by (simp_all add: falsyStr_def)
  have h8: "base64_decode (concat [''QQ=='', ''QQ=='']) = [65]"
    by (simp add: base64_decode_def unbase64_def List.map_filter_simps)
  from decode_fragments_once [OF h3 h5 h6, where tid = 0 and s = "ex_client AwaitBuffer ex_api"]
  show ?thesis
    using h1 h2 h3 h4 h7 h8 by (elim conjE) simp
qed

subsection \<open>The 401 response\<close>

text \<open>
  Claim C6, as stated, fails: a call made through an API object that recorded no
  \<open>wsOrFile\<close> is rejected on a 401 response and no re-check is scheduled.
\<close>

theorem unauthorized_no_recheck_counterexample:
  "status ex_401 = 401
   \<and> map_option (\<lambda>s. t_state (tasks s ! 0))
       (request_response 0 (Responded ex_401) (ex_client AwaitFetch (ex_api\<lparr>wsOrFile := None\<rparr>)))
       = Some (Rejected (HttpError 401 ''Unauthorized''))
   \<and> map_option timers
       (request_response 0 (Responded ex_401) (ex_client AwaitFetch (ex_api\<lparr>wsOrFile := None\<rparr>)))
       = Some []"
  by (simp add: request_response_def ex_client_def ex_401_def Let_def catch_error_plain
      recheck_timers_def ex_api_def)

text \<open>
  Claim C6, amended. On a response with status 401 \<open>request\<close> deletes the pending-auth
  entry of the call's target and rejects with an error that carries the status code 401
  and the status text. It sets one timer of 1000 ms for a connectivity re-check when the
  API object recorded a \<open>wsOrFile\<close> that is a Uri (the re-check is given that Uri) or a
  non-empty workspace folder name (the re-check is given no context), and no timer
  otherwise. A second 401 for another call, before any timer fires, adds the timer of
  that call after the first one under the same condition: nothing is deduplicated.
\<close>

theorem unauthorized_response:
  assumes "tid < length (tasks s)" "t_state (tasks s ! tid) = AwaitFetch" "status r = 401"
  shows "\<exists>s'. request_response tid (Responded r) s = Some s'
     \<and> authRequestMap s' = (authRequestMap s)(t_target (tasks s ! tid) := None)
     \<and> t_state (tasks s' ! tid) = Rejected (HttpError 401 (statusText r))
     \<and> timers s' = timers s @
         (case wsOrFile (t_api (tasks s ! tid)) of
            None \<Rightarrow> []
          | Some (WsName n) \<Rightarrow> (if n = [] then [] else [(1000, CheckConnection True None)])
          | Some (File u) \<Rightarrow> [(1000, CheckConnection True (Some u))])
     \<and> (\<forall>tid2 r2. tid2 \<noteq> tid \<and> tid2 < length (tasks s)
            \<and> t_state (tasks s ! tid2) = AwaitFetch \<and> status r2 = 401 \<longrightarrow>
          (\<exists>s''. request_response tid2 (Responded r2) s' = Some s''
             \<and> timers s'' = timers s @ recheck_timers (t_api (tasks s ! tid))
                                    @ recheck_timers (t_api (tasks s ! tid2))))"
proof -
  let ?s' = "set_state tid (Rejected (HttpError 401 (statusText r)))
            (s\<lparr>authRequestMap := (authRequestMap s)(t_target (tasks s ! tid) := None),
               timers := timers s @ recheck_timers (t_api (tasks s ! tid))\<rparr>)"
  have first: "request_response tid (Responded r) s = Some ?s'"
    by (rule request_response_401 [OF assms])
  have second: "\<exists>s''. request_response tid2 (Responded r2) ?s' = Some s''
             \<and> timers s'' = timers s @ recheck_timers (t_api (tasks s ! tid))
                                    @ recheck_timers (t_api (tasks s ! tid2))"
    if "tid2 \<noteq> tid" "tid2 < length (tasks s)" "t_state (tasks s ! tid2) = AwaitFetch"
       "status r2 = 401" for tid2 r2
  proof -
    have "tid2 < length (tasks ?s')" "t_state (tasks ?s' ! tid2) = AwaitFetch"
      using that by simp_all
    from request_response_401 [OF this that(4)] show ?thesis
      using that by simp
  qed
  show ?thesis
    unfolding first using assms(1) second
    by (simp add: recheck_timers_def split: option.splits wsOrFile.splits)
qed

theorem unauthorized_response_witness:
  "0 < length (tasks (ex_client AwaitFetch ex_api))
   \<and> t_state (tasks (ex_client AwaitFetch ex_api) ! 0) = AwaitFetch
   \<and> t_state (tasks (ex_client AwaitFetch ex_api) ! 1) = AwaitFetch
   \<and> status ex_401 = 401
   \<and> (\<exists>s'. request_response 0 (Responded ex_401) (ex_client AwaitFetch ex_api) = Some s'
         \<and> t_state (tasks s' ! 0) = Rejected (HttpError 401 ''Unauthorized'')
         \<and> timers s' = [(1000, CheckConnection True None)]
         \<and> (\<exists>s''. request_response 1 (Responded ex_401) s' = Some s''
               \<and> timers s'' = [(1000, CheckConnection True None), (1000, CheckConnection True None)]))"
proof -
  have h1: "0 < length (tasks (ex_client AwaitFetch ex_api))"
    and h2: "t_state (tasks (ex_client AwaitFetch ex_api) ! 0) = AwaitFetch"
    and h4: "1 < length (tasks (ex_client AwaitFetch ex_api))"
    and h5: "t_state (tasks (ex_client AwaitFetch ex_api) ! 1) = AwaitFetch"
    and h6: "timers (ex_client AwaitFetch ex_api) = []"
    and h7: "wsOrFile (t_api (tasks (ex_client AwaitFetch ex_api) ! 0)) = Some (WsName ''f'')"
    and h8: "recheck_timers (t_api (tasks (ex_client AwaitFetch ex_api) ! 0)) = [(1000, CheckConnection True None)]"
    and h9: "recheck_timers (t_api (tasks (ex_client AwaitFetch ex_api) ! 1)) = [(1000, CheckConnection True None)]"
    by (simp_all add: ex_client_def Let_def ex_api_def recheck_timers_def)
  have h3: "status ex_401 = 401" and h10: "statusText ex_401 = ''Unauthorized''"
    by (simp_all add: ex_401_def)
  from unauthorized_response [OF h1 h2 h3] obtain s' where
    s': "request_response 0 (Responded ex_401) (ex_client AwaitFetch ex_api) = Some s'"
      "t_state (tasks s' ! 0) = Rejected (HttpError 401 (statusText ex_401))"
      "timers s' = timers (ex_client AwaitFetch ex_api) @
         (case wsOrFile (t_api (tasks (ex_client AwaitFetch ex_api) ! 0)) of
            None \<Rightarrow> []
          | Some (WsName n) \<Rightarrow> (if n = [] then [] else [(1000, CheckConnection True None)])
          | Some (File u) \<Rightarrow> [(1000, CheckConnection True (Some u))])"
      "\<forall>tid2 r2. tid2 \<noteq> 0 \<and> tid2 < length (tasks (ex_client AwaitFetch ex_api))
            \<and> t_state (tasks (ex_client AwaitFetch ex_api) ! tid2) = AwaitFetch \<and> status r2 = 401 \<longrightarrow>
          (\<exists>s''. request_response tid2 (Responded r2) s' = Some s''
             \<and> timers s'' = timers (ex_client AwaitFetch ex_api)
                   @ recheck_timers (t_api (tasks (ex_client AwaitFetch ex_api) ! 0))
                   @ recheck_timers (t_api (tasks (ex_client AwaitFetch ex_api) ! tid2)))"
    by (elim exE conjE)
  from s'(4) h4 h5 h3 have "\<exists>s''. request_response 1 (Responded ex_401) s' = Some s''
             \<and> timers s'' = timers (ex_client AwaitFetch ex_api)
                   @ recheck_timers (t_api (tasks (ex_client AwaitFetch ex_api) ! 0))
                   @ recheck_timers (t_api (tasks (ex_client AwaitFetch ex_api) ! 1))"
    by (metis zero_neq_one)
  then show ?thesis
    using h1 h2 h3 h5 s'(1,2,3) h6 h7 h8 h9 h10 by simp
qed

text \<open>
  Claim C10. On a response with status 401 the cookie cache is left as it was, whatever
  \<open>Set-Cookie\<close> lines the response carries, so every API object reads the same cookies
  as before; the text and the tooltip of the status panel, the runtime store, the output
  channel, the console sink and the log of \<open>fetch\<close> calls are unchanged; the pending-auth
  map is unchanged at every key other than the call's target; and every other call is as
  it was. What the step does change is the entry of the target, the call's own promise
  (now rejected) and the timers, as claim C6 says.
\<close>

theorem unauthorized_frame:
  assumes "tid < length (tasks s)" "t_state (tasks s ! tid) = AwaitFetch" "status r = 401"
  shows "\<exists>s'. request_response tid (Responded r) s = Some s'
     \<and> cache s' = cache s
     \<and> (\<forall>api. cookies s' api = cookies s api)
     \<and> panel_text s' = panel_text s \<and> panel_tooltip s' = panel_tooltip s
     \<and> workspaceState s' = workspaceState s
     \<and> outputChannel s' = outputChannel s \<and> outputConsole s' = outputConsole s
     \<and> fetches s' = fetches s
     \<and> (\<forall>k. k \<noteq> t_target (tasks s ! tid) \<longrightarrow> authRequestMap s' k = authRequestMap s k)
     \<and> length (tasks s') = length (tasks s)
     \<and> (\<forall>i. i \<noteq> tid \<longrightarrow> tasks s' ! i = tasks s ! i)"
  by (simp add: request_response_401 [OF assms] cookies_def)

theorem unauthorized_frame_witness:
  "0 < length (tasks (ex_client AwaitFetch ex_api))
   \<and> t_state (tasks (ex_client AwaitFetch ex_api) ! 0) = AwaitFetch
   \<and> status ex_401 = 401 \<and> setCookie ex_401 = Some [''sid=9'']
   \<and> (\<exists>s'. request_response 0 (Responded ex_401) (ex_client AwaitFetch ex_api) = Some s'
         \<and> cookies s' ex_api = [''sid=1'']
         \<and> panel_text s' = [] \<and> panel_tooltip s' = [])"
proof -
  have h1: "0 < length (tasks (ex_client AwaitFetch ex_api))"
    and h2: "t_state (tasks (ex_client AwaitFetch ex_api) ! 0) = AwaitFetch"
    and h4: "panel_text (ex_client AwaitFetch ex_api) = []"
    and h5: "panel_tooltip (ex_client AwaitFetch ex_api) = []"
    by (simp_all add: ex_client_def Let_def)
  have h3: "status ex_401 = 401" and h6: "setCookie ex_401 = Some [''sid=9'']"
    by (simp_all add: ex_401_def)
  from unauthorized_frame [OF h1 h2 h3] obtain s' where
    "request_response 0 (Responded ex_401) (ex_client AwaitFetch ex_api) = Some s'"
    "\<forall>api. cookies s' api = cookies (ex_client AwaitFetch ex_api) api"
    "panel_text s' = panel_text (ex_client AwaitFetch ex_api)"
    "panel_tooltip s' = panel_tooltip (ex_client AwaitFetch ex_api)"
    by (elim exE conjE)
  then show ?thesis
    using h1 h2 h3 h4 h5 h6 ex_client_cookies [of AwaitFetch] by simp
qed

subsection \<open>Calls and runs\<close>

lemma head_args_method: "toUpperCase (http_method head_args) = ''HEAD''"
  by (simp add: head_args_def toUpperCase_def upper_char_def)

lemma request_call_failure:
  "fast_failure (config (workspaceState s) api) a = Some e \<Longrightarrow>
     request_call api a s = new_task (failed_task api a (config (workspaceState s) api) e) s"
  by (subst request_call.simps) (simp add: Let_def)

lemma request_call_direct:
  "fast_failure (config (workspaceState s) api) a = None \<Longrightarrow>
   cookies s api \<noteq> [] \<or> toUpperCase (http_method a) = ''HEAD'' \<Longrightarrow>
     request_call api a s =
       new_task (with_authorization (config (workspaceState s) api)
                  (prepare api a (config (workspaceState s) api) (cookies s api))) s"
  by (subst request_call.simps) (auto simp: Let_def)

lemma request_call_joined:
  "fast_failure (config (workspaceState s) api) a = None \<Longrightarrow>
   cookies s api = [] \<Longrightarrow> toUpperCase (http_method a) \<noteq> ''HEAD'' \<Longrightarrow>
   authRequestMap s (target_of (config (workspaceState s) api)) = Some h \<Longrightarrow>
     request_call api a s =
       new_task ((prepare api a (config (workspaceState s) api) [])\<lparr>t_state := AwaitAuth h\<rparr>) s"
  by (subst request_call.simps) (simp add: Let_def)

lemma request_call_head:
  "request_call api head_args s = new_task (probe_task api s) s"
  by (cases "fast_failure (config (workspaceState s) api) head_args")
     (simp_all add: request_call_failure request_call_direct probe_task_def head_args_method
        Let_def)

lemma request_call_probe:
  assumes "fast_failure (config (workspaceState s) api) a = None"
    and "cookies s api = []" "toUpperCase (http_method a) \<noteq> ''HEAD''"
    and "authRequestMap s (target_of (config (workspaceState s) api)) = None"
  shows "request_call api a s =
       (Suc (length (tasks s)),
        s\<lparr>tasks := tasks s @ [probe_task api s,
              (prepare api a (config (workspaceState s) api) [])
                 \<lparr>t_state := AwaitAuth (length (tasks s))\<rparr>],
          authRequestMap := (authRequestMap s)
              (target_of (config (workspaceState s) api) \<mapsto> length (tasks s))\<rparr>)"
  using assms
  by (subst request_call.simps) (simp add: Let_def request_call_head new_task_def)

lemma new_task_fields [simp]:
  "fst (new_task t s) = length (tasks s)"
  "tasks (snd (new_task t s)) = tasks s @ [t]"
  "authRequestMap (snd (new_task t s)) = authRequestMap s"
  "cache (snd (new_task t s)) = cache s"
  "workspaceState (snd (new_task t s)) = workspaceState s"
  "fetches (snd (new_task t s)) = fetches s"
  by (simp_all add: new_task_def)

text \<open>A call only adds tasks and may add an entry to the pending-auth map.\<close>

lemma request_call_frame:
  "\<exists>ts. tasks (snd (request_call api a s)) = tasks s @ ts"
  "cache (snd (request_call api a s)) = cache s"
  "workspaceState (snd (request_call api a s)) = workspaceState s"
  "fetches (snd (request_call api a s)) = fetches s"
proof -
  let ?c = "config (workspaceState s) api"
  consider e where "fast_failure ?c a = Some e"
    | "fast_failure ?c a = None" "cookies s api \<noteq> [] \<or> toUpperCase (http_method a) = ''HEAD''"
    | h where "fast_failure ?c a = None" "cookies s api = []"
        "toUpperCase (http_method a) \<noteq> ''HEAD''" "authRequestMap s (target_of ?c) = Some h"
    | "fast_failure ?c a = None" "cookies s api = []"
        "toUpperCase (http_method a) \<noteq> ''HEAD''" "authRequestMap s (target_of ?c) = None"
    by (cases "fast_failure ?c a"; cases "authRequestMap s (target_of ?c)") auto
  then have "(\<exists>ts. tasks (snd (request_call api a s)) = tasks s @ ts)
      \<and> cache (snd (request_call api a s)) = cache s
      \<and> workspaceState (snd (request_call api a s)) = workspaceState s
      \<and> fetches (snd (request_call api a s)) = fetches s"
  proof cases
    case 1
    then show ?thesis by (simp add: request_call_failure)
  next
    case 2
    then show ?thesis by (simp add: request_call_direct)
  next
    case 3
    then show ?thesis by (simp add: request_call_joined)
  next
    case 4
    then show ?thesis by (simp add: request_call_probe)
  qed
  then show "\<exists>ts. tasks (snd (request_call api a s)) = tasks s @ ts"
    "cache (snd (request_call api a s)) = cache s"
    "workspaceState (snd (request_call api a s)) = workspaceState s"
    "fetches (snd (request_call api a s)) = fetches s"
    by blast+
qed

lemma catch_error_fields [simp]:
  "tasks (catch_error tid e s) = (tasks s)[tid := (tasks s ! tid)\<lparr>t_state := Rejected e\<rparr>]"
  "fetches (catch_error tid e s) = fetches s"
  by (simp_all add: catch_error_def Let_def)

lemma do_fetch_fields [simp]:
  "tasks (do_fetch tid v s) = (tasks s)[tid := (tasks s ! tid)\<lparr>t_state := AwaitFetch\<rparr>]"
  "fetches (do_fetch tid v s) = fetches s @ [(tid, t_fetch (tasks s ! tid), v)]"
  by (simp_all add: do_fetch_def)

lemma updateCookies_fields [simp]:
  "tasks (updateCookies api cs s) = tasks s"
  "fetches (updateCookies api cs s) = fetches s"
  by (simp_all add: updateCookies_def)

text \<open>
  A continuation runs on a task that is suspended; it changes no other task, and the only
  \<open>fetch\<close> call it can add is one of its own task.
\<close>

lemma continuation_frame:
  assumes "e = Wake tid \<or> e = FetchDone tid fo \<or> e = CookiesDone tid \<or> e = BufferDone tid bo"
    and "step e s = Some s'"
  shows "tid < length (tasks s) \<and> \<not> settled s tid
     \<and> length (tasks s') = length (tasks s)
     \<and> (\<forall>i. i \<noteq> tid \<longrightarrow> tasks s' ! i = tasks s ! i)
     \<and> (fetches s' = fetches s \<or> (\<exists>f. fetches s' = fetches s @ [f] \<and> fst f = tid))"
proof -
  from assms(1) consider "e = Wake tid" | "e = FetchDone tid fo" | "e = CookiesDone tid"
    | "e = BufferDone tid bo" by blast
  then show ?thesis
  proof cases
    case 1
    with assms(2) show ?thesis
      by (auto simp: request_wake_def settled_def split: if_splits tstate.splits)
  next
    case 2
    with assms(2) show ?thesis
      by (auto simp: request_response_def settled_def Let_def
          split: if_splits fetch_outcome.splits)
  next
    case 3
    with assms(2) show ?thesis
      by (auto simp: request_updated_def settled_def Let_def split: if_splits tstate.splits)
  next
    case 4
    with assms(2) forward_console_frame show ?thesis
      by (fastforce simp: request_body_def settled_def Let_def
          split: if_splits body_outcome.splits sum.splits prod.splits)
  qed
qed

lemma step_frame:
  assumes "step e s = Some s'"
  shows "length (tasks s) \<le> length (tasks s')
     \<and> (\<forall>p. settled s p \<longrightarrow> tasks s' ! p = tasks s ! p
            \<and> filter (\<lambda>f. fst f = p) (fetches s') = filter (\<lambda>f. fst f = p) (fetches s))"
proof (cases e)
  case (Call api a)
  obtain ts where "tasks (snd (request_call api a s)) = tasks s @ ts"
    using request_call_frame(1) by blast
  then show ?thesis
    using assms Call request_call_frame(4) [of api a s]
    by (auto simp: settled_def nth_append)
next
  case (Wake tid)
  from continuation_frame [OF _ assms, of tid] Wake show ?thesis by auto
next
  case (FetchDone tid fo)
  from continuation_frame [OF _ assms, of tid fo] FetchDone show ?thesis by auto
next
  case (CookiesDone tid)
  from continuation_frame [OF _ assms, of tid] CookiesDone show ?thesis by auto
next
  case (BufferDone tid bo)
  from continuation_frame [OF _ assms, of tid _ bo] BufferDone show ?thesis by auto
qed

lemma step_settled:
  "step e s = Some s' \<Longrightarrow> settled s p \<Longrightarrow> settled s' p"
  using step_frame [of e s s'] by (auto simp: settled_def)

text \<open>A task that waits for the promise \<open>h\<close> stays as it is while \<open>h\<close> is not settled.\<close>

lemma step_waiting:
  assumes "step e s = Some s'" "p < length (tasks s)"
    and "t_state (tasks s ! p) = AwaitAuth h" "\<not> settled s h"
  shows "tasks s' ! p = tasks s ! p \<and> p < length (tasks s')
     \<and> filter (\<lambda>f. fst f = p) (fetches s') = filter (\<lambda>f. fst f = p) (fetches s)"
proof (cases e)
  case (Call api a)
  obtain ts where "tasks (snd (request_call api a s)) = tasks s @ ts"
    using request_call_frame(1) by blast
  then show ?thesis
    using assms Call request_call_frame(4) [of api a s] by (auto simp: nth_append)
next
  case (Wake tid)
  have "tid \<noteq> p"
    using assms Wake by (auto simp: request_wake_def settled_def split: if_splits tstate.splits)
  with continuation_frame [OF _ assms(1), of tid] Wake assms(2) show ?thesis by auto
next
  case (FetchDone tid fo)
  have "tid \<noteq> p"
    using assms FetchDone by (auto simp: request_response_def split: if_splits)
  with continuation_frame [OF _ assms(1), of tid fo] FetchDone assms(2) show ?thesis by auto
next
  case (CookiesDone tid)
  have "tid \<noteq> p"
    using assms CookiesDone by (auto simp: request_updated_def Let_def split: if_splits)
  with continuation_frame [OF _ assms(1), of tid] CookiesDone assms(2) show ?thesis by auto
next
  case (BufferDone tid bo)
  have "tid \<noteq> p"
    using assms BufferDone by (auto simp: request_body_def split: if_splits)
  with continuation_frame [OF _ assms(1), of tid _ bo] BufferDone assms(2) show ?thesis by auto
qed

lemma run_settled:
  "run evs s = Some s' \<Longrightarrow> settled s p \<Longrightarrow>
     settled s' p \<and> tasks s' ! p = tasks s ! p
     \<and> filter (\<lambda>f. fst f = p) (fetches s') = filter (\<lambda>f. fst f = p) (fetches s)"
proof (induction evs arbitrary: s)
  case Nil
  then show ?case by simp
next
  case (Cons e evs)
  from Cons.prems obtain s1 where s1: "step e s = Some s1" "run evs s1 = Some s'"
    by (auto split: option.splits)
  from step_frame [OF s1(1)] step_settled [OF s1(1)] Cons.prems(2)
  have "settled s1 p" "tasks s1 ! p = tasks s ! p"
    "filter (\<lambda>f. fst f = p) (fetches s1) = filter (\<lambda>f. fst f = p) (fetches s)"
    by auto
  with Cons.IH [OF s1(2)] show ?case by simp
qed

text \<open>In every run, a task that waits for the promise \<open>h\<close> neither calls \<open>fetch\<close> nor
  settles before \<open>h\<close> is settled.\<close>

lemma run_waiting:
  "run evs s = Some s' \<Longrightarrow> p < length (tasks s) \<Longrightarrow> t_state (tasks s ! p) = AwaitAuth h \<Longrightarrow>
     settled s' h
     \<or> (t_state (tasks s' ! p) = AwaitAuth h
         \<and> filter (\<lambda>f. fst f = p) (fetches s') = filter (\<lambda>f. fst f = p) (fetches s))"
proof (induction evs arbitrary: s)
  case Nil
  then show ?case by simp
next
  case (Cons e evs)
  from Cons.prems obtain s1 where s1: "step e s = Some s1" "run evs s1 = Some s'"
    by (auto split: option.splits)
  show ?case
  proof (cases "settled s h")
    case True
    then have "settled s1 h" by (rule step_settled [OF s1(1)])
    then show ?thesis using run_settled [OF s1(2)] by simp
  next
    case False
    from step_waiting [OF s1(1) Cons.prems(2,3) False]
    have "p < length (tasks s1)" "t_state (tasks s1 ! p) = AwaitAuth h"
      "filter (\<lambda>f. fst f = p) (fetches s1) = filter (\<lambda>f. fst f = p) (fetches s)"
      using Cons.prems(3) by simp_all
    with Cons.IH [OF s1(2)] show ?thesis by simp
  qed
qed

lemma cookies_same:
  "cache s1 = cache s \<Longrightarrow> workspaceState s1 = workspaceState s \<Longrightarrow> cookies s1 api = cookies s api"
  by (simp add: cookies_def)

lemma joined_calls:
  assumes "authRequestMap s T = Some h"
    and "\<forall>(api, a) \<in> set calls.
           fast_failure (config (workspaceState s) api) a = None
           \<and> toUpperCase (http_method a) \<noteq> ''HEAD'' \<and> cookies s api = []
           \<and> target_of (config (workspaceState s) api) = T"
  shows "case request_calls calls s of (ps, s') \<Rightarrow>
       ps = [length (tasks s) ..< length (tasks s) + length calls]
       \<and> authRequestMap s' = authRequestMap s \<and> cache s' = cache s
       \<and> workspaceState s' = workspaceState s \<and> fetches s' = fetches s
       \<and> length (tasks s') = length (tasks s) + length calls
       \<and> (\<forall>i < length (tasks s). tasks s' ! i = tasks s ! i)
       \<and> (\<forall>p \<in> set ps. t_state (tasks s' ! p) = AwaitAuth h)"
  using assms
proof (induction calls arbitrary: s)
  case Nil
  then show ?case by simp
next
  case (Cons c rest)
  obtain api a where c: "c = (api, a)" by (cases c)
  let ?n = "length (tasks s)"
  let ?tw = "(prepare api a (config (workspaceState s) api) [])\<lparr>t_state := AwaitAuth h\<rparr>"
  let ?s1 = "s\<lparr>tasks := tasks s @ [?tw]\<rparr>"
  have call: "request_call api a s = (?n, ?s1)"
    using Cons.prems c by (simp add: request_call_joined new_task_def)
  have pre1: "authRequestMap ?s1 T = Some h" using Cons.prems(1) by simp
  have pre2: "\<forall>(api, a) \<in> set rest.
           fast_failure (config (workspaceState ?s1) api) a = None
           \<and> toUpperCase (http_method a) \<noteq> ''HEAD'' \<and> cookies ?s1 api = []
           \<and> target_of (config (workspaceState ?s1) api) = T"
    using Cons.prems(2) by (auto simp: cookies_def)
  obtain ps s' where rest: "request_calls rest ?s1 = (ps, s')" by (cases "request_calls rest ?s1")
  from Cons.IH [OF pre1 pre2] rest
  have ih: "ps = [Suc ?n ..< Suc ?n + length rest]"
    "authRequestMap s' = authRequestMap s" "cache s' = cache s"
    "workspaceState s' = workspaceState s" "fetches s' = fetches s"
    "length (tasks s') = Suc ?n + length rest"
    "\<forall>i < Suc ?n. tasks s' ! i = (tasks s @ [?tw]) ! i"
    "\<forall>p \<in> set ps. t_state (tasks s' ! p) = AwaitAuth h"
    by simp_all
  have whole: "request_calls (c # rest) s = (?n # ps, s')"
    using call rest c by simp
  have upt: "?n # ps = [?n ..< ?n + length (c # rest)]"
  proof -
    have a: "?n + length (c # rest) = Suc ?n + length rest" by simp
    have "[?n ..< Suc ?n + length rest] = ?n # [Suc ?n ..< Suc ?n + length rest]"
      by (rule upt_conv_Cons) simp
    then show ?thesis unfolding a ih(1) by (rule sym)
  qed
  have own: "t_state (tasks s' ! ?n) = AwaitAuth h"
    using ih(7) by simp
  have old: "\<forall>i < ?n. tasks s' ! i = tasks s ! i"
    using ih(7) by (simp add: nth_append)
  have len: "length (tasks s') = ?n + length (c # rest)"
    using ih(6) by simp
  have all: "\<forall>p \<in> set (?n # ps). t_state (tasks s' ! p) = AwaitAuth h"
    using ih(8) own by simp
  show ?case
    unfolding whole prod.case using upt ih(2-5) len old all by blast
qed

lemma ex_config:
  "config ex_ws ex_api =
     \<lparr> serverName = Some ''srv'', active = Some True, apiVersion = Some 1, https = Some False,
       host = Some ''h'', port = Some 52773, pathPrefix = Some [], ns = Some ''user'',
       username = Some ''u'', password = Some ''p'', docker = Some False, dockerService = None \<rparr>"
  by (simp add: config_def ex_ws_def ex_api_def ex_settings_def wsGet_def orStr_def Let_def
      DEFAULT_API_VERSION_def)

lemma string_of_int_1: "string_of_int 1 = ''1''"
  by (simp add: string_of_int_def string_of_nat.simps digit_char_def)

lemma probe_task_method: "t_method (probe_task api s) = ''HEAD''"
  by (simp add: probe_task_def failed_task_def with_authorization_def head_args_method Let_def
      split: option.splits)
     (simp add: head_args_def)

lemma probe_task_state:
  "fast_failure (config (workspaceState s) api) head_args = None \<Longrightarrow>
     t_state (probe_task api s) = AwaitResolved (cookies s api)"
  by (simp add: probe_task_def with_authorization_def Let_def)

lemma probe_calls:
  assumes none: "authRequestMap s T = None"
    and cold: "\<forall>(api, a) \<in> set (c # rest).
           fast_failure (config (workspaceState s) api) a = None
           \<and> toUpperCase (http_method a) \<noteq> ''HEAD'' \<and> cookies s api = []
           \<and> target_of (config (workspaceState s) api) = T"
  shows "case request_calls (c # rest) s of (ps, s') \<Rightarrow>
       ps = [Suc (length (tasks s)) ..< Suc (length (tasks s)) + length (c # rest)]
       \<and> authRequestMap s' T = Some (length (tasks s))
       \<and> fetches s' = fetches s
       \<and> length (tasks s') = Suc (length (tasks s)) + length (c # rest)
       \<and> (\<forall>i < length (tasks s). tasks s' ! i = tasks s ! i)
       \<and> tasks s' ! length (tasks s) = probe_task (fst c) s
       \<and> (\<forall>p \<in> set ps. t_state (tasks s' ! p) = AwaitAuth (length (tasks s)))"
proof -
  obtain api a where c: "c = (api, a)" by (cases c)
  let ?n = "length (tasks s)"
  let ?tw = "(prepare api a (config (workspaceState s) api) [])\<lparr>t_state := AwaitAuth ?n\<rparr>"
  let ?s1 = "s\<lparr>tasks := tasks s @ [probe_task api s, ?tw],
               authRequestMap := (authRequestMap s)(T \<mapsto> ?n)\<rparr>"
  have call: "request_call api a s = (Suc ?n, ?s1)"
    using cold none c request_call_probe [of s api a] by simp
  have pre1: "authRequestMap ?s1 T = Some ?n" by simp
  have pre2: "\<forall>(api, a) \<in> set rest.
           fast_failure (config (workspaceState ?s1) api) a = None
           \<and> toUpperCase (http_method a) \<noteq> ''HEAD'' \<and> cookies ?s1 api = []
           \<and> target_of (config (workspaceState ?s1) api) = T"
    using cold by (auto simp: cookies_def)
  obtain ps s' where rest: "request_calls rest ?s1 = (ps, s')" by (cases "request_calls rest ?s1")
  from joined_calls [OF pre1 pre2] rest
  have ih: "ps = [Suc (Suc ?n) ..< Suc (Suc ?n) + length rest]"
    "authRequestMap s' = (authRequestMap s)(T \<mapsto> ?n)"
    "fetches s' = fetches s"
    "length (tasks s') = Suc (Suc ?n) + length rest"
    "\<forall>i < Suc (Suc ?n). tasks s' ! i = (tasks s @ [probe_task api s, ?tw]) ! i"
    "\<forall>p \<in> set ps. t_state (tasks s' ! p) = AwaitAuth ?n"
    by simp_all
  have whole: "request_calls (c # rest) s = (Suc ?n # ps, s')"
    using call rest c by simp
  have upt: "Suc ?n # ps = [Suc ?n ..< Suc ?n + length (c # rest)]"
  proof -
    have a: "Suc ?n + length (c # rest) = Suc (Suc ?n) + length rest" by simp
    have "[Suc ?n ..< Suc (Suc ?n) + length rest] = Suc ?n # [Suc (Suc ?n) ..< Suc (Suc ?n) + length rest]"
      by (rule upt_conv_Cons) simp
    then show ?thesis unfolding a ih(1) by (rule sym)
  qed
  have entry: "authRequestMap s' T = Some ?n" using ih(2) by simp
  have len: "length (tasks s') = Suc ?n + length (c # rest)" using ih(4) by simp
  have old: "\<forall>i < ?n. tasks s' ! i = tasks s ! i"
    using ih(5) by (simp add: nth_append)
  have probe: "tasks s' ! ?n = probe_task (fst c) s"
    using ih(5) c by (simp add: nth_append)
  have own: "t_state (tasks s' ! Suc ?n) = AwaitAuth ?n"
    using ih(5) by (simp add: nth_append)
  have all: "\<forall>p \<in> set (Suc ?n # ps). t_state (tasks s' ! p) = AwaitAuth ?n"
    using ih(6) own by simp
  show ?thesis
    unfolding whole prod.case using upt entry ih(3) len old probe all by blast
qed

text \<open>
  Claim C1. Take calls of \<open>request\<close>, none of them a \<open>HEAD\<close>, made one after the
  other with no continuation in between, all passing the fast failures, all with an
  empty cookie set and all with the same target key \<open>T\<close>. If the pending-auth map has no
  entry for \<open>T\<close>, the first call creates one \<open>HEAD\<close> probe and stores its promise under
  \<open>T\<close> before it awaits; exactly one task is created besides the callers' own. If
  the map already has an entry, no probe is created. In both cases the map then holds
  one promise \<open>h\<close> under \<open>T\<close>, every one of the calls awaits that promise \<open>h\<close>, no call
  has made a \<open>fetch\<close>, and in every run of the event loop that follows, none of the calls
  makes its \<open>fetch\<close> or settles before \<open>h\<close> is settled.
\<close>

theorem cold_requests_share_one_handshake:
  assumes nonempty: "calls \<noteq> []"
    and cold: "\<forall>(api, a) \<in> set calls.
           fast_failure (config (workspaceState s) api) a = None
           \<and> toUpperCase (http_method a) \<noteq> ''HEAD'' \<and> cookies s api = []
           \<and> target_of (config (workspaceState s) api) = T"
  shows "case request_calls calls s of (ps, s') \<Rightarrow>
     (case authRequestMap s T of
        None \<Rightarrow>
          authRequestMap s' T = Some (length (tasks s))
          \<and> t_method (tasks s' ! length (tasks s)) = ''HEAD''
          \<and> (fast_failure (config (workspaceState s) (fst (hd calls))) head_args = None \<longrightarrow>
               t_state (tasks s' ! length (tasks s)) = AwaitResolved [])
          \<and> ps = [Suc (length (tasks s)) ..< Suc (length (tasks s)) + length calls]
          \<and> length (tasks s') = Suc (length (tasks s)) + length calls
      | Some h \<Rightarrow>
          authRequestMap s' T = Some h
          \<and> ps = [length (tasks s) ..< length (tasks s) + length calls]
          \<and> length (tasks s') = length (tasks s) + length calls)
     \<and> (\<exists>h. authRequestMap s' T = Some h
           \<and> (\<forall>p \<in> set ps. t_state (tasks s' ! p) = AwaitAuth h)
           \<and> (\<forall>evs s''. run evs s' = Some s'' \<longrightarrow>
                 (\<forall>p \<in> set ps.
                    (settled s'' p \<longrightarrow> settled s'' h)
                    \<and> (\<not> settled s'' h \<longrightarrow>
                          t_state (tasks s'' ! p) = AwaitAuth h
                          \<and> filter (\<lambda>f. fst f = p) (fetches s'')
                              = filter (\<lambda>f. fst f = p) (fetches s)))))
     \<and> fetches s' = fetches s
     \<and> (\<forall>i < length (tasks s). tasks s' ! i = tasks s ! i)"
proof -
  obtain ps s' where res: "request_calls calls s = (ps, s')" by (cases "request_calls calls s")
  let ?n = "length (tasks s)"
  have waiting: "(settled s'' p \<longrightarrow> settled s'' h)
        \<and> (\<not> settled s'' h \<longrightarrow> t_state (tasks s'' ! p) = AwaitAuth h
              \<and> filter (\<lambda>f. fst f = p) (fetches s'') = filter (\<lambda>f. fst f = p) (fetches s))"
    if "run evs s' = Some s''" "p < length (tasks s')" "t_state (tasks s' ! p) = AwaitAuth h"
      "fetches s' = fetches s" for evs s'' p h
    using run_waiting [OF that(1,2,3)] that(4) by (auto simp: settled_def)
  show ?thesis
  proof (cases "authRequestMap s T")
    case None
    obtain c rest where calls: "calls = c # rest" using nonempty by (cases calls) auto
    from probe_calls [OF None cold [unfolded calls]] res calls
    have f: "ps = [Suc ?n ..< Suc ?n + length calls]"
      "authRequestMap s' T = Some ?n" "fetches s' = fetches s"
      "length (tasks s') = Suc ?n + length calls"
      "\<forall>i < ?n. tasks s' ! i = tasks s ! i"
      "tasks s' ! ?n = probe_task (fst (hd calls)) s"
      "\<forall>p \<in> set ps. t_state (tasks s' ! p) = AwaitAuth ?n"
      by simp_all
    have cs: "cookies s (fst (hd calls)) = []"
      using cold calls by auto
    have inrange: "\<forall>p \<in> set ps. p < length (tasks s')"
      unfolding f(1) f(4) by (simp del: upt_Suc)
    have probe: "t_method (tasks s' ! ?n) = ''HEAD''"
      "fast_failure (config (workspaceState s) (fst (hd calls))) head_args = None \<longrightarrow>
         t_state (tasks s' ! ?n) = AwaitResolved []"
      using f(6) probe_task_method probe_task_state [of s "fst (hd calls)"] cs by simp_all
    have runs: "\<forall>evs s''. run evs s' = Some s'' \<longrightarrow>
                 (\<forall>p \<in> set ps.
                    (settled s'' p \<longrightarrow> settled s'' ?n)
                    \<and> (\<not> settled s'' ?n \<longrightarrow>
                          t_state (tasks s'' ! p) = AwaitAuth ?n
                          \<and> filter (\<lambda>f. fst f = p) (fetches s'')
                              = filter (\<lambda>f. fst f = p) (fetches s)))"
      using waiting f(3,7) inrange by blast
    show ?thesis
      unfolding res prod.case None option.case
      using f(1,2,3,4,5,7) probe runs by blast
  next
    case (Some h)
    from joined_calls [OF Some cold] res
    have f: "ps = [?n ..< ?n + length calls]"
      "authRequestMap s' = authRequestMap s" "fetches s' = fetches s"
      "length (tasks s') = ?n + length calls"
      "\<forall>i < ?n. tasks s' ! i = tasks s ! i"
      "\<forall>p \<in> set ps. t_state (tasks s' ! p) = AwaitAuth h"
      by simp_all
    have entry: "authRequestMap s' T = Some h" using f(2) Some by simp
    have inrange: "\<forall>p \<in> set ps. p < length (tasks s')"
      unfolding f(1) f(4) by (simp del: upt_Suc)
    have runs: "\<forall>evs s''. run evs s' = Some s'' \<longrightarrow>
                 (\<forall>p \<in> set ps.
                    (settled s'' p \<longrightarrow> settled s'' h)
                    \<and> (\<not> settled s'' h \<longrightarrow>
                          t_state (tasks s'' ! p) = AwaitAuth h
                          \<and> filter (\<lambda>f. fst f = p) (fetches s'')
                              = filter (\<lambda>f. fst f = p) (fetches s)))"
      using waiting f(3,6) inrange by blast
    show ?thesis
      unfolding res prod.case Some option.case
      using f(1,3,4,5,6) entry runs by blast
  qed
qed

lemma ex_calls_cold:
  "\<forall>(api, a) \<in> set ex_calls.
      fast_failure (config (workspaceState ex_idle) api) a = None
      \<and> toUpperCase (http_method a) \<noteq> ''HEAD'' \<and> cookies ex_idle api = []
      \<and> target_of (config (workspaceState ex_idle) api) = ''u@h:52773''"
  by (simp add: ex_calls_def ex_idle_def ex_config fast_failure_def falsyNum_def falsyStr_def
      ex_args_def toUpperCase_def upper_char_def cookies_def target_of_def strT_def numT_def
      string_of_int_52773)

theorem cold_requests_share_one_handshake_witness:
  "ex_calls \<noteq> []
   \<and> authRequestMap ex_idle ''u@h:52773'' = None
   \<and> cookies ex_idle ex_api = []
   \<and> (case request_calls ex_calls ex_idle of
        (ps, s') \<Rightarrow>
          ps = [1, 2, 3]
          \<and> length (tasks s') = 4
          \<and> authRequestMap s' ''u@h:52773'' = Some 0
          \<and> t_method (tasks s' ! 0) = ''HEAD''
          \<and> map (\<lambda>p. t_state (tasks s' ! p)) ps = [AwaitAuth 0, AwaitAuth 0, AwaitAuth 0]
          \<and> fetches s' = [])"
proof -
  have h0: "ex_calls \<noteq> []" by (simp add: ex_calls_def)
  have none: "authRequestMap ex_idle ''u@h:52773'' = None"
    and e: "tasks ex_idle = []" "fetches ex_idle = []"
    by (simp_all add: ex_idle_def)
  have cs: "cookies ex_idle ex_api = []"
    by (simp add: cookies_def ex_idle_def)
  have len: "length ex_calls = 3" by (simp add: ex_calls_def)
  obtain ps s' where res: "request_calls ex_calls ex_idle = (ps, s')"
    by (cases "request_calls ex_calls ex_idle")
  from cold_requests_share_one_handshake [OF h0 ex_calls_cold]
  have "ps = [1, 2, 3] \<and> length (tasks s') = 4
          \<and> authRequestMap s' ''u@h:52773'' = Some 0
          \<and> t_method (tasks s' ! 0) = ''HEAD''
          \<and> map (\<lambda>p. t_state (tasks s' ! p)) ps = [AwaitAuth 0, AwaitAuth 0, AwaitAuth 0]
          \<and> fetches s' = []"
    unfolding res prod.case none option.case e len
    by (elim conjE exE) (simp add: upt_rec)
  then show ?thesis
    unfolding res prod.case using h0 none cs by (elim conjE) simp
qed

text \<open>
  Claim C5. A call of \<open>request\<close> whose connection is inactive, or whose effective port
  is unset (missing or 0), or whose effective host is empty (missing or the empty
  string), returns a promise that is already rejected with no value. A call that passes
  this test and whose \<open>minVersion\<close> is above the negotiated \<open>apiVersion\<close> returns a promise
  already rejected with the message \<open>`${path} not supported by API version ${apiVersion}`\<close>.
  In both cases the call changes nothing but the list of calls (no \<open>fetch\<close>, no entry in
  the pending-auth map), and in every later run of the event loop the call stays as it
  is and never makes a \<open>fetch\<close> call.
\<close>

theorem fast_failures:
  "case request_call api a s of (p, s') \<Rightarrow>
     (let c = config (workspaceState s) api;
          inactive = (active (priv_config api) \<noteq> Some True \<or> port c = None \<or> port c = Some 0
                       \<or> host c = None \<or> host c = Some []);
          unsupported = (\<exists>v. apiVersion c = Some v \<and> v < minVersion a)
      in (inactive \<longrightarrow> t_state (tasks s' ! p) = Rejected NoValue)
       \<and> (\<not> inactive \<and> unsupported \<longrightarrow>
            t_state (tasks s' ! p) = Rejected (Message
              (strT (path a) @ '' not supported by API version '' @ numT (apiVersion c))))
       \<and> (inactive \<or> unsupported \<longrightarrow>
            p = length (tasks s) \<and> s' = s\<lparr>tasks := tasks s @ [tasks s' ! p]\<rparr>
            \<and> fetches s' = fetches s
            \<and> (\<forall>evs s''. run evs s' = Some s'' \<longrightarrow>
                  tasks s'' ! p = tasks s' ! p
                  \<and> filter (\<lambda>f. fst f = p) (fetches s'') = filter (\<lambda>f. fst f = p) (fetches s))))"
proof -
  let ?c = "config (workspaceState s) api"
  let ?inactive = "active (priv_config api) \<noteq> Some True \<or> port ?c = None \<or> port ?c = Some 0
                       \<or> host ?c = None \<or> host ?c = Some []"
  let ?unsupported = "\<exists>v. apiVersion ?c = Some v \<and> v < minVersion a"
  obtain p s' where res: "request_call api a s = (p, s')" by (cases "request_call api a s")
  have act: "active ?c \<noteq> Some True \<longleftrightarrow> active (priv_config api) \<noteq> Some True"
    by (cases "active (priv_config api)") (simp_all add: config_def Let_def)
  have guard: "(active ?c \<noteq> Some True \<or> falsyNum (port ?c) \<or> falsyStr (host ?c)) \<longleftrightarrow> ?inactive"
    unfolding act by (auto simp: falsyNum_def falsyStr_def split: option.splits)
  have first: "fast_failure ?c a = Some NoValue" if "?inactive"
    using that guard by (simp add: fast_failure_def)
  have second: "fast_failure ?c a = Some (Message
        (strT (path a) @ '' not supported by API version '' @ numT (apiVersion ?c)))"
    if "\<not> ?inactive" "?unsupported"
    using that guard by (auto simp: fast_failure_def)
  have quiet: "p = length (tasks s) \<and> s' = s\<lparr>tasks := tasks s @ [tasks s' ! p]\<rparr>
      \<and> fetches s' = fetches s
      \<and> t_state (tasks s' ! p) = Rejected e
      \<and> (\<forall>evs s''. run evs s' = Some s'' \<longrightarrow>
            tasks s'' ! p = tasks s' ! p
            \<and> filter (\<lambda>f. fst f = p) (fetches s'') = filter (\<lambda>f. fst f = p) (fetches s))"
    if ff: "fast_failure ?c a = Some e" for e
  proof -
    from request_call_failure [OF ff] res
    have p: "p = length (tasks s)" and s': "s' = s\<lparr>tasks := tasks s @ [failed_task api a ?c e]\<rparr>"
      by (simp_all add: new_task_def)
    have st: "t_state (tasks s' ! p) = Rejected e"
      by (simp add: p s' failed_task_def)
    have "settled s' p" by (simp add: settled_def st) (simp add: p s')
    from run_settled [OF _ this] have "\<forall>evs s''. run evs s' = Some s'' \<longrightarrow>
            tasks s'' ! p = tasks s' ! p
            \<and> filter (\<lambda>f. fst f = p) (fetches s'') = filter (\<lambda>f. fst f = p) (fetches s')"
      by blast
    moreover have "fetches s' = fetches s" by (simp add: s')
    moreover have "s' = s\<lparr>tasks := tasks s @ [tasks s' ! p]\<rparr>" by (simp add: p s')
    ultimately show ?thesis using p st by simp
  qed
  have a: "?inactive \<longrightarrow> t_state (tasks s' ! p) = Rejected NoValue"
    using first quiet by blast
  have b: "\<not> ?inactive \<and> ?unsupported \<longrightarrow>
            t_state (tasks s' ! p) = Rejected (Message
              (strT (path a) @ '' not supported by API version '' @ numT (apiVersion ?c)))"
    using second quiet by blast
  have c: "?inactive \<or> ?unsupported \<longrightarrow>
            p = length (tasks s) \<and> s' = s\<lparr>tasks := tasks s @ [tasks s' ! p]\<rparr>
            \<and> fetches s' = fetches s
            \<and> (\<forall>evs s''. run evs s' = Some s'' \<longrightarrow>
                  tasks s'' ! p = tasks s' ! p
                  \<and> filter (\<lambda>f. fst f = p) (fetches s'') = filter (\<lambda>f. fst f = p) (fetches s))"
  proof (cases ?inactive)
    case True
    then show ?thesis using quiet [OF first] by blast
  next
    case False
    then show ?thesis using quiet [OF second] by blast
  qed
  show ?thesis
    unfolding res prod.case Let_def using a b c by blast
qed

theorem fast_failures_witness:
  "active (priv_config (ex_api\<lparr>priv_config := ex_settings\<lparr>active := Some False\<rparr>\<rparr>)) = Some False
   \<and> (case request_call (ex_api\<lparr>priv_config := ex_settings\<lparr>active := Some False\<rparr>\<rparr>) ex_args ex_idle of
        (p, s') \<Rightarrow> p = 0 \<and> t_state (tasks s' ! p) = Rejected NoValue \<and> fetches s' = [])
   \<and> apiVersion (config (workspaceState ex_idle) ex_api) = Some 1
   \<and> minVersion (ex_args\<lparr>minVersion := 2\<rparr>) = 2
   \<and> (case request_call ex_api (ex_args\<lparr>minVersion := 2\<rparr>) ex_idle of
        (p, s') \<Rightarrow> p = 0 \<and> fetches s' = []
          \<and> t_state (tasks s' ! p) =
              Rejected (Message ''USER/doc/a.cls not supported by API version 1''))"
proof -
  let ?off = "ex_api\<lparr>priv_config := ex_settings\<lparr>active := Some False\<rparr>\<rparr>"
  have ws: "workspaceState ex_idle = ex_ws" and e: "tasks ex_idle = []" "fetches ex_idle = []"
    by (simp_all add: ex_idle_def)
  have h1: "active (priv_config ?off) = Some False" by simp
  obtain p s' where r1: "request_call ?off ex_args ex_idle = (p, s')"
    by (cases "request_call ?off ex_args ex_idle")
  from fast_failures [where api = ?off and a = ex_args and s = ex_idle] h1
  have c1: "p = 0 \<and> t_state (tasks s' ! p) = Rejected NoValue \<and> fetches s' = []"
    unfolding r1 prod.case Let_def
    by (elim conjE) (simp add: e)
  have h2: "apiVersion (config (workspaceState ex_idle) ex_api) = Some 1"
    and h3: "port (config (workspaceState ex_idle) ex_api) = Some 52773"
    and h4: "host (config (workspaceState ex_idle) ex_api) = Some ''h''"
    and h5: "active (priv_config ex_api) = Some True"
    and h6: "path (ex_args\<lparr>minVersion := 2\<rparr>) = Some ''USER/doc/a.cls''"
    by (simp_all add: ws ex_config) (simp_all add: ex_api_def ex_settings_def ex_args_def)
  obtain q t' where r2: "request_call ex_api (ex_args\<lparr>minVersion := 2\<rparr>) ex_idle = (q, t')"
    by (cases "request_call ex_api (ex_args\<lparr>minVersion := 2\<rparr>) ex_idle")
  from fast_failures [where api = ex_api and a = "ex_args\<lparr>minVersion := 2\<rparr>" and s = ex_idle]
    h2 h3 h4 h5 h6
  have c2: "q = 0 \<and> fetches t' = []
          \<and> t_state (tasks t' ! q) =
              Rejected (Message ''USER/doc/a.cls not supported by API version 1'')"
    unfolding r2 prod.case Let_def
    by (elim conjE) (simp add: e strT_def numT_def string_of_int_1)
  show ?thesis
    unfolding r1 r2 prod.case using h1 h2 c1 c2 by auto
qed

end
